theory Spec2Isabelle
  imports Main "HOL-Library.AList"
begin

section \<open>Text and regular expressions\<close>

text \<open>
  Python strings are sequences of code points. A \<^typ>\<open>char\<close> stands for one code point
  below 256; every pattern and keyword of the program is ASCII. \<open>str.lower()\<close> on that
  range changes the ASCII capitals and the Latin-1 capitals (192 to 222 without the
  multiplication sign 215), each moved up by 32.
\<close>

definition lower_char :: "char \<Rightarrow> char" where
  "lower_char c =
     (let n = (of_char c :: nat)
      in if (65 \<le> n \<and> n \<le> 90) \<or> (192 \<le> n \<and> n \<le> 222 \<and> n \<noteq> 215)
         then char_of (n + 32) else c)"

definition lower :: "string \<Rightarrow> string" where
  "lower s = map lower_char s"

text \<open>
  The fragment of Python's \<open>re\<close> syntax that the patterns of \<open>analyze_log_output\<close> use:
  literal characters, \<open>.\<close> (any character but a newline, no flag being given), alternation,
  concatenation and \<open>*\<close>. \<open>RNone\<close> and \<open>REps\<close> are the empty language and the empty word.
\<close>

datatype rx =
    RNone
  | REps
  | RChr char
  | RDot
  | RAlt rx rx
  | RSeq rx rx
  | RStar rx

fun nullable :: "rx \<Rightarrow> bool" where
  "nullable RNone = False"
| "nullable REps = True"
| "nullable (RChr c) = False"
| "nullable RDot = False"
| "nullable (RAlt a b) = (nullable a \<or> nullable b)"
| "nullable (RSeq a b) = (nullable a \<and> nullable b)"
| "nullable (RStar a) = True"

fun deriv :: "char \<Rightarrow> rx \<Rightarrow> rx" where
  "deriv c RNone = RNone"
| "deriv c REps = RNone"
| "deriv c (RChr d) = (if c = d then REps else RNone)"
| "deriv c RDot = (if c = CHR 0x0A then RNone else REps)"
| "deriv c (RAlt a b) = RAlt (deriv c a) (deriv c b)"
| "deriv c (RSeq a b) =
     (if nullable a then RAlt (RSeq (deriv c a) b) (deriv c b) else RSeq (deriv c a) b)"
| "deriv c (RStar a) = RSeq (deriv c a) (RStar a)"

text \<open>\<open>re.match\<close>: some prefix of the text is a word of the pattern.\<close>

fun re_match :: "rx \<Rightarrow> string \<Rightarrow> bool" where
  "re_match r [] = nullable r"
| "re_match r (c # cs) = (nullable r \<or> re_match (deriv c r) cs)"

text \<open>\<open>re.search\<close> (as a truth value): the pattern matches at some position of the text.\<close>

fun re_search :: "rx \<Rightarrow> string \<Rightarrow> bool" where
  "re_search r [] = nullable r"
| "re_search r (c # cs) = (re_match r (c # cs) \<or> re_search r cs)"

text \<open>A literal word, \<open>.*\<close>, and the bounded repetition \<open>.{0,n}\<close>.\<close>

fun lit :: "string \<Rightarrow> rx" where
  "lit [] = REps"
| "lit (c # cs) = RSeq (RChr c) (lit cs)"

definition dot_star :: rx where
  "dot_star = RStar RDot"

fun dot_upto :: "nat \<Rightarrow> rx" where
  "dot_upto 0 = REps"
| "dot_upto (Suc n) = RAlt REps (RSeq RDot (dot_upto n))"

text \<open>The language of a pattern, as the set of words it denotes.\<close>

inductive_set star :: "string set \<Rightarrow> string set" for A :: "string set" where
  star_nil: "[] \<in> star A"
| star_app: "u \<in> A \<Longrightarrow> v \<in> star A \<Longrightarrow> u @ v \<in> star A"

fun lang :: "rx \<Rightarrow> string set" where
  "lang RNone = {}"
| "lang REps = {[]}"
| "lang (RChr c) = {[c]}"
| "lang RDot = {[c] | c. c \<noteq> CHR 0x0A}"
| "lang (RAlt a b) = lang a \<union> lang b"
| "lang (RSeq a b) = {u @ v | u v. u \<in> lang a \<and> v \<in> lang b}"
| "lang (RStar a) = star (lang a)"

text \<open>\<open>needs c r\<close>: a syntactic check that every word of \<open>r\<close> contains the character \<open>c\<close>.\<close>

fun needs :: "char \<Rightarrow> rx \<Rightarrow> bool" where
  "needs c RNone = True"
| "needs c REps = False"
| "needs c (RChr d) = (c = d)"
| "needs c RDot = False"
| "needs c (RAlt a b) = (needs c a \<and> needs c b)"
| "needs c (RSeq a b) = (needs c a \<or> needs c b)"
| "needs c (RStar a) = False"

section \<open>The log analyzer\<close>

text \<open>
  A Python \<open>dict\<close> is an association list in insertion order. \<open>d[k] = v\<close> is
  \<^const>\<open>AList.update\<close> (an existing key keeps its place, a new key goes to the end);
  \<open>d[k] += 1\<close> reads the key first and raises \<open>KeyError\<close> when it is missing.
\<close>

type_synonym 'v dict = "(string \<times> 'v) list"

datatype exn = KeyError | KeyboardInterrupt | OtherException

definition dict_incr :: "string \<Rightarrow> int dict \<Rightarrow> exn + int dict" where
  "dict_incr k d =
     (case map_of d k of
        None \<Rightarrow> Inl KeyError
      | Some v \<Rightarrow> Inr (AList.update k (v + 1) d))"

record results =
  kyber_init :: "bool dict"
  key_generation :: "bool dict"
  key_exchange_attempts :: "int dict"
  sessions_established :: "int dict"
  quantum_security_active :: "bool dict"
  mesh_packets :: "int dict"
  errors :: "int dict"

definition empty_results :: results where
  "empty_results =
     \<lparr>kyber_init = [], key_generation = [], key_exchange_attempts = [],
      sessions_established = [], quantum_security_active = [], mesh_packets = [],
      errors = []\<rparr>"

text \<open>The eight entries of \<open>patterns\<close>, in the order of the source.\<close>

definition pat_kyber_init :: rx where
  "pat_kyber_init =
     RAlt (RSeq (lit ''Kyber'') (RSeq dot_star (lit ''initialized'')))
          (RSeq (lit ''KyberCryptoEngine'') (RSeq dot_star (lit ''created'')))"

definition pat_key_generation :: rx where
  "pat_key_generation =
     RAlt (lit ''Kyber keypair generated'')
          (RSeq (lit ''generateKeyPair'') (RSeq dot_star (lit ''success'')))"

definition pat_key_exchange_start :: rx where
  "pat_key_exchange_start =
     RAlt (lit ''Initiating Kyber key exchange'') (lit ''KYBER_MSG_KEY_EXCHANGE_REQUEST'')"

definition pat_key_chunk :: rx where
  "pat_key_chunk =
     RAlt (RSeq (lit ''Kyber'') (RSeq dot_star (lit ''chunk''))) (lit ''KYBER_MSG_KEY_CHUNK'')"

definition pat_session_established :: rx where
  "pat_session_established =
     RAlt (lit ''Kyber session established'')
          (RSeq (lit ''quantum security'') (RSeq dot_star (lit ''active'')))"

definition pat_quantum_security :: rx where
  "pat_quantum_security =
     RSeq (lit ''quantum'')
       (RSeq (dot_upto 20)
         (RSeq (lit ''security'')
           (RSeq (dot_upto 20) (RAlt (lit ''active'') (lit ''enabled'')))))"

definition pat_mesh_packet :: rx where
  "pat_mesh_packet =
     RAlt (RSeq (lit ''packet'') (RSeq dot_star (lit ''received'')))
       (RAlt (RSeq (lit ''packet'') (RSeq dot_star (lit ''sent'')))
             (RSeq (lit ''mesh'') (RSeq dot_star (lit ''message''))))"

definition pat_error :: rx where
  "pat_error = RAlt (lit ''ERROR'') (RAlt (lit ''FAIL'') (RAlt (lit ''error'') (lit ''fail'')))"

text \<open>
  The first seven statements of the outer loop's body: every category gets an entry for
  the device, \<open>False\<close> or \<open>0\<close>.
\<close>

definition init_device :: "string \<Rightarrow> results \<Rightarrow> results" where
  "init_device device_name r =
     r\<lparr>kyber_init := AList.update device_name False (kyber_init r),
       key_generation := AList.update device_name False (key_generation r),
       key_exchange_attempts := AList.update device_name 0 (key_exchange_attempts r),
       sessions_established := AList.update device_name 0 (sessions_established r),
       quantum_security_active := AList.update device_name False (quantum_security_active r),
       mesh_packets := AList.update device_name 0 (mesh_packets r),
       errors := AList.update device_name 0 (errors r)\<rparr>"

text \<open>
  The body of the inner loop for one line: the line is lowercased, then the seven
  \<open>if re.search(...)\<close> statements run in the order of the source, each on its own.
\<close>

definition set_true :: "bool \<Rightarrow> string \<Rightarrow> bool dict \<Rightarrow> bool dict" where
  "set_true hit k d = (if hit then AList.update k True d else d)"

definition add_one :: "bool \<Rightarrow> string \<Rightarrow> int dict \<Rightarrow> exn + int dict" where
  "add_one hit k d = (if hit then dict_incr k d else Inr d)"

definition analyze_line :: "string \<Rightarrow> string \<Rightarrow> results \<Rightarrow> exn + results" where
  "analyze_line device_name line r =
     (let line_lower = lower line;
          r1 = r\<lparr>kyber_init :=
                 set_true (re_search pat_kyber_init line_lower) device_name (kyber_init r)\<rparr>;
          r2 = r1\<lparr>key_generation :=
                 set_true (re_search pat_key_generation line_lower) device_name
                   (key_generation r1)\<rparr>
      in case add_one (re_search pat_key_exchange_start line_lower) device_name
                (key_exchange_attempts r2) of
           Inl e \<Rightarrow> Inl e
         | Inr kx \<Rightarrow>
        (case add_one (re_search pat_session_established line_lower) device_name
                (sessions_established r2) of
           Inl e \<Rightarrow> Inl e
         | Inr se \<Rightarrow>
        (let qs = set_true (re_search pat_quantum_security line_lower) device_name
                    (quantum_security_active r2)
         in case add_one (re_search pat_mesh_packet line_lower) device_name (mesh_packets r2) of
              Inl e \<Rightarrow> Inl e
            | Inr mp \<Rightarrow>
           (case add_one (re_search pat_error line_lower) device_name (errors r2) of
              Inl e \<Rightarrow> Inl e
            | Inr er \<Rightarrow>
                Inr (r2\<lparr>key_exchange_attempts := kx, sessions_established := se,
                        quantum_security_active := qs, mesh_packets := mp,
                        errors := er\<rparr>)))))"

text \<open>The inner loop, \<open>for timestamp, line in logs\<close>; the timestamp is bound and not read.\<close>

fun analyze_lines :: "string \<Rightarrow> ('t \<times> string) list \<Rightarrow> results \<Rightarrow> exn + results" where
  "analyze_lines device_name [] r = Inr r"
| "analyze_lines device_name ((timestamp, line) # logs) r =
     (case analyze_line device_name line r of
        Inl e \<Rightarrow> Inl e
      | Inr r' \<Rightarrow> analyze_lines device_name logs r')"

text \<open>The outer loop, \<open>for device_name, logs in device_logs.items()\<close>.\<close>

fun analyze_devices :: "('t \<times> string) list dict \<Rightarrow> results \<Rightarrow> exn + results" where
  "analyze_devices [] r = Inr r"
| "analyze_devices ((device_name, logs) # rest) r =
     (case analyze_lines device_name logs (init_device device_name r) of
        Inl e \<Rightarrow> Inl e
      | Inr r' \<Rightarrow> analyze_devices rest r')"

definition analyze_log_output :: "('t \<times> string) list dict \<Rightarrow> exn + results" where
  "analyze_log_output device_logs = analyze_devices device_logs empty_results"

text \<open>
  What the analysis amounts to, for stating its properties: whether some line of a log,
  lowercased, contains a match of a pattern; how many lines do; and the table that gives
  every device of the input, in its order, such a value.
\<close>

definition seen :: "rx \<Rightarrow> ('t \<times> string) list \<Rightarrow> bool" where
  "seen p logs = list_ex (\<lambda>(timestamp, line). re_search p (lower line)) logs"

definition hits :: "rx \<Rightarrow> ('t \<times> string) list \<Rightarrow> int" where
  "hits p logs = int (length (filter (\<lambda>(timestamp, line). re_search p (lower line)) logs))"

definition per_device ::
  "(('t \<times> string) list \<Rightarrow> 'v) \<Rightarrow> ('t \<times> string) list dict \<Rightarrow> 'v dict" where
  "per_device g device_logs = map (\<lambda>(d, logs). (d, g logs)) device_logs"

definition summary :: "('t \<times> string) list dict \<Rightarrow> results" where
  "summary device_logs =
     \<lparr>kyber_init = per_device (seen pat_kyber_init) device_logs,
      key_generation = per_device (seen pat_key_generation) device_logs,
      key_exchange_attempts = per_device (hits pat_key_exchange_start) device_logs,
      sessions_established = per_device (hits pat_session_established) device_logs,
      quantum_security_active = per_device (seen pat_quantum_security) device_logs,
      mesh_packets = per_device (hits pat_mesh_packet) device_logs,
      errors = per_device (hits pat_error) device_logs\<rparr>"

section \<open>The verdict\<close>

text \<open>
  The dictionary \<open>success_criteria\<close> of \<open>test_mesh_communication\<close> and the value
  \<open>all(success_criteria.values())\<close>. Python's \<open>all\<close> of no value is \<open>True\<close>, and
  \<open>sum\<close> of no value is \<open>0\<close>.
\<close>

record criteria =
  both_init :: bool
  both_keygen :: bool
  key_exchanges :: bool
  low_errors :: bool

definition success_criteria :: "results \<Rightarrow> criteria" where
  "success_criteria analysis =
     \<lparr>both_init = list_all (\<lambda>v. v) (map snd (kyber_init analysis)),
      both_keygen = list_all (\<lambda>v. v) (map snd (key_generation analysis)),
      key_exchanges = (sum_list (map snd (key_exchange_attempts analysis)) > 0),
      low_errors = list_all (\<lambda>count. count < 5) (map snd (errors analysis))\<rparr>"

definition overall_success :: "criteria \<Rightarrow> bool" where
  "overall_success c = (both_init c \<and> both_keygen c \<and> key_exchanges c \<and> low_errors c)"

section \<open>The outside world and the stages of a run\<close>

text \<open>
  What a run meets outside the program is a record: the serial ports the system lists,
  how the flashing command behaves for an upload port, the items the collector takes
  from the queue during its window (or the exception raised in the main thread
  meanwhile), and whether writing the report file raises. Each stage returns its result
  together with the events it caused; status lines printed by \<open>log\<close> are not events.
\<close>

record port_info =
  device :: string
  description :: string

text \<open>
  The flashing command, left to itself, exits after some seconds with a return code,
  or never exits, or cannot be run at all (or the user interrupts it).
  \<open>subprocess.run(cmd, timeout=t)\<close> completes with the return code when the command
  exits within \<open>t\<close> seconds, raises \<open>TimeoutExpired\<close> when it does not, and lets any
  other exception through.
\<close>

datatype command_run = Exits nat int | Hangs | Fails exn

datatype proc_result = Completed int | TimeoutExpired | Raised exn

definition subprocess_run :: "command_run \<Rightarrow> nat \<Rightarrow> proc_result" where
  "subprocess_run command timeout =
     (case command of
        Exits seconds returncode \<Rightarrow>
          if seconds \<le> timeout then Completed returncode else TimeoutExpired
      | Hangs \<Rightarrow> TimeoutExpired
      | Fails x \<Rightarrow> Raised x)"

record 't env =
  comports :: "port_info list"
  flash_command :: "string \<Rightarrow> command_run"
  collected :: "exn + (string \<times> 't \<times> string) list"
  write_report :: "exn option"

datatype event =
    EvFlash string string
  | EvSleep nat
  | EvMonitor string string nat
  | EvWriteReport "bool dict" bool

text \<open>\<open>keyword in text\<close>: the keyword occurs as a contiguous part of the text.\<close>

fun starts_with :: "string \<Rightarrow> string \<Rightarrow> bool" where
  "starts_with [] s = True"
| "starts_with (k # ks) [] = False"
| "starts_with (k # ks) (c # cs) = (k = c \<and> starts_with ks cs)"

fun contains :: "string \<Rightarrow> string \<Rightarrow> bool" where
  "contains kw [] = (kw = [])"
| "contains kw (c # cs) = (starts_with kw (c # cs) \<or> contains kw cs)"

definition t_deck_keywords :: "string list" where
  "t_deck_keywords = [''cp210'', ''esp32'', ''serial'', ''usb'']"

definition is_candidate :: "port_info \<Rightarrow> bool" where
  "is_candidate port = list_ex (\<lambda>keyword. contains keyword (lower (description port))) t_deck_keywords"

definition find_t_deck_devices :: "'t env \<Rightarrow> string list" where
  "find_t_deck_devices e =
     (let t_deck_ports = map device (filter is_candidate (comports e))
      in if length t_deck_ports < 2 then [] else take 2 t_deck_ports)"

text \<open>
  \<open>flash_firmware\<close>: the command runs under \<open>subprocess.run\<close> with \<open>timeout=300\<close>.
  \<open>except Exception\<close> catches every exception but \<open>KeyboardInterrupt\<close>, which leaves
  the function.
\<close>

definition flash_firmware :: "'t env \<Rightarrow> string \<Rightarrow> string \<Rightarrow> (exn + bool) \<times> event list" where
  "flash_firmware e port device_name =
     (case subprocess_run (flash_command e port) 300 of
        Completed returncode \<Rightarrow> Inr (returncode = 0)
      | TimeoutExpired \<Rightarrow> Inr False
      | Raised x \<Rightarrow> (if x = KeyboardInterrupt then Inl x else Inr False),
      [EvFlash port device_name])"

text \<open>\<open>str\<close> of a natural number, and the device name \<open>f"T-Deck-{i+1}"\<close>.\<close>

fun str_nat :: "nat \<Rightarrow> string" where
  "str_nat n =
     (if n < 10 then [char_of (48 + n)]
      else str_nat (n div 10) @ [char_of (48 + n mod 10)])"

declare str_nat.simps [simp del]

definition t_deck_name :: "nat \<Rightarrow> string" where
  "t_deck_name i = ''T-Deck-'' @ str_nat (i + 1)"

text \<open>The flashing loop of \<open>run_tests\<close>, over \<open>enumerate(ports)\<close>.\<close>

fun flash_loop ::
  "'t env \<Rightarrow> (nat \<times> string) list \<Rightarrow> bool dict \<Rightarrow> (exn + bool dict) \<times> event list" where
  "flash_loop e [] flash_results = (Inr flash_results, [])"
| "flash_loop e ((i, port) # rest) flash_results =
     (let device_name = t_deck_name i
      in case flash_firmware e port device_name of
           (Inl x, ev) \<Rightarrow> (Inl x, ev)
         | (Inr success, ev) \<Rightarrow>
             (case flash_loop e rest (AList.update device_name success flash_results) of
                (res, ev') \<Rightarrow> (res, ev @ (if success then [EvSleep 10] else []) @ ev')))"

text \<open>
  The collection loop of \<open>test_mesh_communication\<close>:
  \<open>device_logs[device_name].append((timestamp, line))\<close> for every item of the queue.
\<close>

fun collect_logs ::
  "(string \<times> 't \<times> string) list \<Rightarrow> ('t \<times> string) list dict \<Rightarrow> exn + ('t \<times> string) list dict" where
  "collect_logs [] device_logs = Inr device_logs"
| "collect_logs ((device_name, timestamp, line) # items) device_logs =
     (case map_of device_logs device_name of
        None \<Rightarrow> Inl KeyError
      | Some logs \<Rightarrow>
          collect_logs items
            (AList.update device_name (logs @ [(timestamp, line)]) device_logs))"

definition enumerate_from0 :: "'a list \<Rightarrow> (nat \<times> 'a) list" where
  "enumerate_from0 xs = zip [0 ..< length xs] xs"

text \<open>
  \<open>test_mesh_communication\<close>: one monitor per port is started, each with the duration
  90 written in the call; the logs are collected, analyzed and judged.
\<close>

definition test_mesh_communication :: "'t env \<Rightarrow> string list \<Rightarrow> (exn + bool) \<times> event list" where
  "test_mesh_communication e ports =
     (let monitors = map (\<lambda>(i, port). EvMonitor port (t_deck_name i) 90) (enumerate_from0 ports)
      in (case collected e of
            Inl x \<Rightarrow> Inl x
          | Inr items \<Rightarrow>
              (case collect_logs items [(''T-Deck-1'', []), (''T-Deck-2'', [])] of
                 Inl x \<Rightarrow> Inl x
               | Inr device_logs \<Rightarrow>
                   (case analyze_log_output device_logs of
                      Inl x \<Rightarrow> Inl x
                    | Inr analysis \<Rightarrow> Inr (overall_success (success_criteria analysis)))),
          monitors))"

text \<open>
  The expression \<open>all(flash_results.values()) and mesh_result\<close>, which \<open>run_tests\<close>
  returns and \<open>generate_test_report\<close> computes for its summary line.
\<close>

definition run_result :: "bool dict \<Rightarrow> bool \<Rightarrow> bool" where
  "run_result flash_results mesh_result =
     (list_all (\<lambda>v. v) (map snd flash_results) \<and> mesh_result)"

text \<open>
  \<open>run_tests\<close>: discovery, flashing, monitoring, report. With fewer than two ports
  it returns \<open>False\<close> at once. The report's text is not modelled; writing it is the
  event \<open>EvWriteReport\<close> with the two arguments of \<open>generate_test_report\<close>.
  \<open>run_tests_with\<close> is the body of the method with the call
  \<open>self.test_mesh_communication(ports)\<close> as its first argument; \<open>run_tests\<close> is the
  method itself.
\<close>

definition run_tests_with ::
  "(string list \<Rightarrow> (exn + bool) \<times> event list) \<Rightarrow> 't env \<Rightarrow> (exn + bool) \<times> event list" where
  "run_tests_with mesh_stage e =
     (let ports = find_t_deck_devices e
      in if length ports < 2 then (Inr False, [])
         else
           (case flash_loop e (enumerate_from0 ports) [] of
              (Inl x, ev1) \<Rightarrow> (Inl x, ev1)
            | (Inr flash_results, ev1) \<Rightarrow>
                (case mesh_stage ports of
                   (Inl x, ev2) \<Rightarrow> (Inl x, ev1 @ ev2)
                 | (Inr mesh_result, ev2) \<Rightarrow>
                     (case write_report e of
                        Some x \<Rightarrow> (Inl x, ev1 @ ev2)
                      | None \<Rightarrow>
                          (Inr (run_result flash_results mesh_result),
                           ev1 @ ev2 @ [EvWriteReport flash_results mesh_result])))))"

definition run_tests :: "'t env \<Rightarrow> (exn + bool) \<times> event list" where
  "run_tests e = run_tests_with (test_mesh_communication e) e"

text \<open>
  \<open>main\<close>: the three command-line options are parsed; only \<open>verbose\<close> is passed on (it
  turns on printing and nothing else). The exit status is 0 when \<open>run_tests\<close> returns
  \<open>True\<close>, and 1 when it returns \<open>False\<close> or raises.
\<close>

record args =
  verbose :: bool
  skip_flash :: bool
  test_duration :: int

definition main :: "args \<Rightarrow> 't env \<Rightarrow> int \<times> event list" where
  "main a e =
     (case run_tests e of
        (Inr success, ev) \<Rightarrow> (if success then 0 else 1, ev)
      | (Inl KeyboardInterrupt, ev) \<Rightarrow> (1, ev)
      | (Inl _, ev) \<Rightarrow> (1, ev))"

section \<open>Example environments\<close>

text \<open>
  Three situations a run can meet: a single serial port that looks like a T-Deck; four
  ports of which three do, with both flashes succeeding; two ports, where the flashing
  command for the first would return 0 but only after 400 seconds.
\<close>

definition env_one_port :: "int env" where
  "env_one_port =
     \<lparr>comports =
        [\<lparr>device = ''/dev/ttyS0'', description = ''n/a''\<rparr>,
         \<lparr>device = ''/dev/ttyUSB0'', description = ''CP2102 USB to UART Bridge Controller''\<rparr>],
      flash_command = (\<lambda>port. Exits 40 0),
      collected = Inr [],
      write_report = None\<rparr>"

definition env_three_ports :: "int env" where
  "env_three_ports =
     \<lparr>comports =
        [\<lparr>device = ''/dev/ttyS0'', description = ''n/a''\<rparr>,
         \<lparr>device = ''/dev/ttyUSB0'', description = ''CP2102 USB to UART Bridge Controller''\<rparr>,
         \<lparr>device = ''/dev/ttyACM0'', description = ''ESP32-S3''\<rparr>,
         \<lparr>device = ''/dev/ttyUSB1'', description = ''FT232R USB UART''\<rparr>],
      flash_command = (\<lambda>port. Exits 40 0),
      collected = Inr [(''T-Deck-1'', 0, ''KyberCryptoEngine created''),
                       (''T-Deck-2'', 1, ''KyberCryptoEngine created'')],
      write_report = None\<rparr>"

definition env_flash_timeout :: "int env" where
  "env_flash_timeout =
     \<lparr>comports =
        [\<lparr>device = ''/dev/ttyUSB0'', description = ''CP2102 USB to UART Bridge Controller''\<rparr>,
         \<lparr>device = ''/dev/ttyUSB1'', description = ''CP2102 USB to UART Bridge Controller''\<rparr>],
      flash_command = (\<lambda>port. if port = ''/dev/ttyUSB0'' then Exits 400 0 else Exits 40 0),
      collected = Inr [(''T-Deck-1'', 0, ''boot''), (''T-Deck-2'', 1, ''boot'')],
      write_report = None\<rparr>"

section \<open>The matcher agrees with the language of a pattern\<close>

text \<open>
  \<open>re_match\<close> holds exactly when a prefix of the text is a word of the pattern, and
  \<open>re_search\<close> exactly when some contiguous part of the text is.
\<close>

lemma nullable_lang: "nullable r \<longleftrightarrow> [] \<in> lang r"
  by (induction r) (auto intro: star.star_nil)

lemma star_cons:
  "c # w \<in> star A \<Longrightarrow> \<exists>u v. w = u @ v \<and> c # u \<in> A \<and> v \<in> star A"
proof (induction "c # w" arbitrary: w rule: star.induct)
  case (star_app u v)
  show ?case
  proof (cases u)
    case Nil
    with star_app show ?thesis by simp
  next
    case (Cons a u')
    with star_app.hyps(1,2,4) show ?thesis by auto
  qed
qed

lemma lang_deriv: "lang (deriv c r) = {w. c # w \<in> lang r}"
proof (induction r)
  case RNone
  show ?case by simp
next
  case REps
  show ?case by simp
next
  case (RChr d)
  show ?case by auto
next
  case RDot
  show ?case by auto
next
  case (RAlt a b)
  then show ?case by auto
next
  case (RSeq a b)
  have left: "{u @ v | u v. u \<in> lang (deriv c a) \<and> v \<in> lang b}
      = {w. \<exists>u v. c # w = u @ v \<and> u \<noteq> [] \<and> u \<in> lang a \<and> v \<in> lang b}"
  proof (intro set_eqI iffI)
    fix w assume "w \<in> {u @ v | u v. u \<in> lang (deriv c a) \<and> v \<in> lang b}"
    then obtain u v where "w = u @ v" "c # u \<in> lang a" "v \<in> lang b"
      using RSeq.IH(1) by auto
    then have "c # w = (c # u) @ v \<and> c # u \<noteq> [] \<and> c # u \<in> lang a \<and> v \<in> lang b" by simp
    then show "w \<in> {w. \<exists>u v. c # w = u @ v \<and> u \<noteq> [] \<and> u \<in> lang a \<and> v \<in> lang b}"
      by blast
  next
    fix w assume "w \<in> {w. \<exists>u v. c # w = u @ v \<and> u \<noteq> [] \<and> u \<in> lang a \<and> v \<in> lang b}"
    then obtain u v where uv: "c # w = u @ v" "u \<noteq> []" "u \<in> lang a" "v \<in> lang b" by blast
    then obtain u' where u: "u = c # u'" by (cases u) auto
    with uv have "w = u' @ v" "u' \<in> lang (deriv c a)" using RSeq.IH(1) by auto
    with uv(4) show "w \<in> {u @ v | u v. u \<in> lang (deriv c a) \<and> v \<in> lang b}" by blast
  qed
  have split: "(\<exists>u v. c # w = u @ v \<and> u \<in> lang a \<and> v \<in> lang b) \<longleftrightarrow>
      (\<exists>u v. c # w = u @ v \<and> u \<noteq> [] \<and> u \<in> lang a \<and> v \<in> lang b)
      \<or> ([] \<in> lang a \<and> c # w \<in> lang b)" for w
  proof
    assume "\<exists>u v. c # w = u @ v \<and> u \<in> lang a \<and> v \<in> lang b"
    then obtain u v where uv: "c # w = u @ v" "u \<in> lang a" "v \<in> lang b" by blast
    show "(\<exists>u v. c # w = u @ v \<and> u \<noteq> [] \<and> u \<in> lang a \<and> v \<in> lang b)
      \<or> ([] \<in> lang a \<and> c # w \<in> lang b)"
    proof (cases "u = []")
      case True
      with uv show ?thesis by simp
    next
      case False
      with uv show ?thesis by blast
    qed
  next
    assume "(\<exists>u v. c # w = u @ v \<and> u \<noteq> [] \<and> u \<in> lang a \<and> v \<in> lang b)
      \<or> ([] \<in> lang a \<and> c # w \<in> lang b)"
    then show "\<exists>u v. c # w = u @ v \<and> u \<in> lang a \<and> v \<in> lang b"
    proof
      assume "\<exists>u v. c # w = u @ v \<and> u \<noteq> [] \<and> u \<in> lang a \<and> v \<in> lang b"
      then show ?thesis by blast
    next
      assume "[] \<in> lang a \<and> c # w \<in> lang b"
      then have "c # w = [] @ (c # w) \<and> [] \<in> lang a \<and> c # w \<in> lang b" by simp
      then show ?thesis by blast
    qed
  qed
  show ?case
  proof (cases "nullable a")
    case True
    then have "[] \<in> lang a" by (simp add: nullable_lang)
    with True have "lang (deriv c (RSeq a b)) =
        {w. \<exists>u v. c # w = u @ v \<and> u \<noteq> [] \<and> u \<in> lang a \<and> v \<in> lang b}
        \<union> {w. c # w \<in> lang b}"
      using left RSeq.IH(2) by simp
    also have "\<dots> = {w. c # w \<in> lang (RSeq a b)}"
      using \<open>[] \<in> lang a\<close> split by auto
    finally show ?thesis .
  next
    case False
    then have "[] \<notin> lang a" by (simp add: nullable_lang)
    with False have "lang (deriv c (RSeq a b)) =
        {w. \<exists>u v. c # w = u @ v \<and> u \<noteq> [] \<and> u \<in> lang a \<and> v \<in> lang b}"
      using left by simp
    also have "\<dots> = {w. c # w \<in> lang (RSeq a b)}"
      using \<open>[] \<notin> lang a\<close> split by auto
    finally show ?thesis .
  qed
next
  case (RStar a)
  show ?case
  proof (intro set_eqI iffI)
    fix w assume "w \<in> lang (deriv c (RStar a))"
    then obtain u v where "w = u @ v" "c # u \<in> lang a" "v \<in> star (lang a)"
      using RStar by auto
    then have "(c # u) @ v \<in> star (lang a)" by (intro star.star_app)
    with \<open>w = u @ v\<close> show "w \<in> {w. c # w \<in> lang (RStar a)}" by simp
  next
    fix w assume "w \<in> {w. c # w \<in> lang (RStar a)}"
    then have "c # w \<in> star (lang a)" by simp
    from star_cons [OF this] obtain u v where
      "w = u @ v" "c # u \<in> lang a" "v \<in> star (lang a)" by blast
    with RStar show "w \<in> lang (deriv c (RStar a))" by auto
  qed
qed

lemma re_match_lang: "re_match r s \<longleftrightarrow> (\<exists>u v. s = u @ v \<and> u \<in> lang r)"
proof (induction s arbitrary: r)
  case Nil
  then show ?case by (simp add: nullable_lang)
next
  case (Cons c s)
  show ?case
  proof
    assume "re_match r (c # s)"
    then consider "nullable r" | "re_match (deriv c r) s" by auto
    then show "\<exists>u v. c # s = u @ v \<and> u \<in> lang r"
    proof cases
      case 1
      then have "c # s = [] @ (c # s) \<and> [] \<in> lang r" by (simp add: nullable_lang)
      then show ?thesis by blast
    next
      case 2
      with Cons obtain u v where "s = u @ v" "u \<in> lang (deriv c r)" by blast
      then have "c # s = (c # u) @ v \<and> c # u \<in> lang r" by (simp add: lang_deriv)
      then show ?thesis by blast
    qed
  next
    assume "\<exists>u v. c # s = u @ v \<and> u \<in> lang r"
    then obtain u v where uv: "c # s = u @ v" "u \<in> lang r" by blast
    show "re_match r (c # s)"
    proof (cases u)
      case Nil
      with uv have "nullable r" by (simp add: nullable_lang)
      then show ?thesis by simp
    next
      case (Cons x u')
      with uv have "s = u' @ v" "u' \<in> lang (deriv c r)" by (auto simp: lang_deriv)
      with Cons.IH [of "deriv c r"] show ?thesis by auto
    qed
  qed
qed

lemma re_search_lang: "re_search r s \<longleftrightarrow> (\<exists>p u v. s = p @ u @ v \<and> u \<in> lang r)"
proof (induction s)
  case Nil
  then show ?case by (simp add: nullable_lang)
next
  case (Cons c s)
  show ?case
  proof
    assume "re_search r (c # s)"
    then consider "re_match r (c # s)" | "re_search r s" by auto
    then show "\<exists>p u v. c # s = p @ u @ v \<and> u \<in> lang r"
    proof cases
      case 1
      then obtain u v where "c # s = [] @ u @ v \<and> u \<in> lang r"
        by (auto simp: re_match_lang simp del: re_match.simps)
      then show ?thesis by blast
    next
      case 2
      with Cons obtain p u v where "s = p @ u @ v" "u \<in> lang r" by blast
      then have "c # s = (c # p) @ u @ v \<and> u \<in> lang r" by simp
      then show ?thesis by blast
    qed
  next
    assume "\<exists>p u v. c # s = p @ u @ v \<and> u \<in> lang r"
    then obtain p u v where puv: "c # s = p @ u @ v" "u \<in> lang r" by blast
    show "re_search r (c # s)"
    proof (cases p)
      case Nil
      with puv have "re_match r (c # s)"
        by (auto simp: re_match_lang simp del: re_match.simps)
      then show ?thesis by simp
    next
      case (Cons x p')
      with puv have "s = p' @ u @ v" by simp
      with puv(2) Cons.IH have "re_search r s" by blast
      then show ?thesis by simp
    qed
  qed
qed

section \<open>Patterns that cannot match a lowercased line\<close>

lemma needs_not_nullable: "needs c r \<Longrightarrow> \<not> nullable r"
  by (induction r) auto

lemma needs_deriv: "needs c r \<Longrightarrow> d \<noteq> c \<Longrightarrow> needs c (deriv d r)"
  by (induction r) (auto dest: needs_not_nullable)

lemma needs_no_match: "needs c r \<Longrightarrow> c \<notin> set s \<Longrightarrow> \<not> re_match r s"
proof (induction s arbitrary: r)
  case Nil
  then show ?case by (simp add: needs_not_nullable)
next
  case (Cons a s)
  from Cons.prems have "a \<noteq> c" and "c \<notin> set s" by auto
  with Cons.prems(1) have "needs c (deriv a r)" by (simp add: needs_deriv)
  with Cons.IH \<open>c \<notin> set s\<close> have "\<not> re_match (deriv a r) s" by blast
  with Cons.prems(1) show ?case by (simp add: needs_not_nullable)
qed

lemma needs_no_search: "needs c r \<Longrightarrow> c \<notin> set s \<Longrightarrow> \<not> re_search r s"
proof (induction s)
  case Nil
  then show ?case by (simp add: needs_not_nullable)
next
  case (Cons a s)
  from Cons.prems have "\<not> re_match r (a # s)" by (rule needs_no_match)
  moreover from Cons have "\<not> re_search r s" by simp
  ultimately show ?case by simp
qed

lemma lower_char_not_upper:
  "\<not> (65 \<le> (of_char (lower_char c) :: nat) \<and> (of_char (lower_char c) :: nat) \<le> 90)"
  by (auto simp: lower_char_def Let_def)

lemma K_notin_lower: "CHR ''K'' \<notin> set (lower s)"
proof
  assume "CHR ''K'' \<in> set (lower s)"
  then obtain c where "lower_char c = CHR ''K''" by (auto simp: lower_def)
  then have "(of_char (lower_char c) :: nat) = 75" by simp
  with lower_char_not_upper [of c] show False by simp
qed

lemma needs_K:
  "needs CHR ''K'' pat_kyber_init"
  "needs CHR ''K'' pat_key_generation"
  "needs CHR ''K'' pat_key_exchange_start"
  by (simp_all add: pat_kyber_init_def pat_key_generation_def pat_key_exchange_start_def)

lemma no_search_lower:
  "\<not> re_search pat_kyber_init (lower s)"
  "\<not> re_search pat_key_generation (lower s)"
  "\<not> re_search pat_key_exchange_start (lower s)"
  by (simp_all add: needs_no_search [OF _ K_notin_lower] needs_K)

lemma not_seen_kyber:
  "\<not> seen pat_kyber_init logs"
  "\<not> seen pat_key_generation logs"
  "hits pat_key_exchange_start logs = 0"
  by (induction logs) (auto simp: seen_def hits_def no_search_lower)

section \<open>What the analysis computes\<close>

lemma seen_simps [simp]:
  "seen p [] = False"
  "seen p ((t, l) # logs) = (re_search p (lower l) \<or> seen p logs)"
  by (simp_all add: seen_def)

lemma hits_simps [simp]:
  "hits p [] = 0"
  "hits p ((t, l) # logs) = of_bool (re_search p (lower l)) + hits p logs"
  by (simp_all add: hits_def)

lemma add_one_present:
  "map_of d k = Some v \<Longrightarrow> add_one hit k d = Inr (AList.update k (v + of_bool hit) d)"
  by (simp add: add_one_def dict_incr_def update_triv)

lemma set_true_present:
  "map_of d k = Some b \<Longrightarrow> set_true hit k d = AList.update k (b \<or> hit) d"
  by (cases hit) (simp_all add: set_true_def update_triv)

lemma map_of_update_same: "map_of (AList.update k v d) k = Some v"
  by (simp add: update_conv')

lemma analyze_line_present:
  assumes "map_of (kyber_init r) d = Some b1"
    and "map_of (key_generation r) d = Some b2"
    and "map_of (key_exchange_attempts r) d = Some n1"
    and "map_of (sessions_established r) d = Some n2"
    and "map_of (quantum_security_active r) d = Some b3"
    and "map_of (mesh_packets r) d = Some n3"
    and "map_of (errors r) d = Some n4"
  shows "analyze_line d line r = Inr
     \<lparr>kyber_init = AList.update d (b1 \<or> re_search pat_kyber_init (lower line)) (kyber_init r),
      key_generation = AList.update d (b2 \<or> re_search pat_key_generation (lower line)) (key_generation r),
      key_exchange_attempts = AList.update d (n1 + of_bool (re_search pat_key_exchange_start (lower line))) (key_exchange_attempts r),
      sessions_established = AList.update d (n2 + of_bool (re_search pat_session_established (lower line))) (sessions_established r),
      quantum_security_active = AList.update d (b3 \<or> re_search pat_quantum_security (lower line)) (quantum_security_active r),
      mesh_packets = AList.update d (n3 + of_bool (re_search pat_mesh_packet (lower line))) (mesh_packets r),
      errors = AList.update d (n4 + of_bool (re_search pat_error (lower line))) (errors r)\<rparr>"
  using assms
  by (simp add: analyze_line_def Let_def add_one_present set_true_present)

lemma analyze_lines_present:
  assumes "map_of (kyber_init r) d = Some b1"
    and "map_of (key_generation r) d = Some b2"
    and "map_of (key_exchange_attempts r) d = Some n1"
    and "map_of (sessions_established r) d = Some n2"
    and "map_of (quantum_security_active r) d = Some b3"
    and "map_of (mesh_packets r) d = Some n3"
    and "map_of (errors r) d = Some n4"
  shows "analyze_lines d logs r = Inr
     \<lparr>kyber_init = AList.update d (b1 \<or> seen pat_kyber_init logs) (kyber_init r),
      key_generation = AList.update d (b2 \<or> seen pat_key_generation logs) (key_generation r),
      key_exchange_attempts = AList.update d (n1 + hits pat_key_exchange_start logs) (key_exchange_attempts r),
      sessions_established = AList.update d (n2 + hits pat_session_established logs) (sessions_established r),
      quantum_security_active = AList.update d (b3 \<or> seen pat_quantum_security logs) (quantum_security_active r),
      mesh_packets = AList.update d (n3 + hits pat_mesh_packet logs) (mesh_packets r),
      errors = AList.update d (n4 + hits pat_error logs) (errors r)\<rparr>"
  using assms
proof (induction logs arbitrary: r b1 b2 n1 n2 b3 n3 n4)
  case Nil
  then show ?case by (simp add: update_triv)
next
  case (Cons a logs)
  obtain t l where a: "a = (t, l)" by (cases a)
  define r1 where "r1 =
     \<lparr>kyber_init = AList.update d (b1 \<or> re_search pat_kyber_init (lower l)) (kyber_init r),
      key_generation = AList.update d (b2 \<or> re_search pat_key_generation (lower l)) (key_generation r),
      key_exchange_attempts = AList.update d (n1 + of_bool (re_search pat_key_exchange_start (lower l))) (key_exchange_attempts r),
      sessions_established = AList.update d (n2 + of_bool (re_search pat_session_established (lower l))) (sessions_established r),
      quantum_security_active = AList.update d (b3 \<or> re_search pat_quantum_security (lower l)) (quantum_security_active r),
      mesh_packets = AList.update d (n3 + of_bool (re_search pat_mesh_packet (lower l))) (mesh_packets r),
      errors = AList.update d (n4 + of_bool (re_search pat_error (lower l))) (errors r)\<rparr>"
  have step: "analyze_line d l r = Inr r1"
    unfolding r1_def by (rule analyze_line_present [OF Cons.prems])
  have rest: "analyze_lines d logs r1 = Inr
     \<lparr>kyber_init = AList.update d ((b1 \<or> re_search pat_kyber_init (lower l)) \<or> seen pat_kyber_init logs) (kyber_init r1),
      key_generation = AList.update d ((b2 \<or> re_search pat_key_generation (lower l)) \<or> seen pat_key_generation logs) (key_generation r1),
      key_exchange_attempts = AList.update d ((n1 + of_bool (re_search pat_key_exchange_start (lower l))) + hits pat_key_exchange_start logs) (key_exchange_attempts r1),
      sessions_established = AList.update d ((n2 + of_bool (re_search pat_session_established (lower l))) + hits pat_session_established logs) (sessions_established r1),
      quantum_security_active = AList.update d ((b3 \<or> re_search pat_quantum_security (lower l)) \<or> seen pat_quantum_security logs) (quantum_security_active r1),
      mesh_packets = AList.update d ((n3 + of_bool (re_search pat_mesh_packet (lower l))) + hits pat_mesh_packet logs) (mesh_packets r1),
      errors = AList.update d ((n4 + of_bool (re_search pat_error (lower l))) + hits pat_error logs) (errors r1)\<rparr>"
    by (rule Cons.IH) (simp_all add: r1_def map_of_update_same)
  have "analyze_lines d (a # logs) r = analyze_lines d logs r1"
    by (simp add: a step)
  also note rest
  finally show ?case
    by (simp add: r1_def a add.assoc)
qed


lemma keys_per_device: "fst ` set (per_device g dl) = fst ` set dl"
  by (force simp: per_device_def)

lemma per_device_snoc: "per_device g (dl @ [(d, logs)]) = per_device g dl @ [(d, g logs)]"
  by (simp add: per_device_def)

lemma update_fresh: "k \<notin> fst ` set al \<Longrightarrow> AList.update k v al = al @ [(k, v)]"
  by (induction al) auto

lemma update_snoc: "k \<notin> fst ` set al \<Longrightarrow> AList.update k v (al @ [(k, w)]) = al @ [(k, v)]"
  by (induction al) auto

lemma map_of_snoc: "k \<notin> fst ` set al \<Longrightarrow> map_of (al @ [(k, w)]) k = Some w"
  by (induction al) auto

lemma init_device_summary:
  assumes "d \<notin> fst ` set done"
  shows "init_device d (summary done) =
     \<lparr>kyber_init = per_device (seen pat_kyber_init) done @ [(d, False)],
      key_generation = per_device (seen pat_key_generation) done @ [(d, False)],
      key_exchange_attempts = per_device (hits pat_key_exchange_start) done @ [(d, 0)],
      sessions_established = per_device (hits pat_session_established) done @ [(d, 0)],
      quantum_security_active = per_device (seen pat_quantum_security) done @ [(d, False)],
      mesh_packets = per_device (hits pat_mesh_packet) done @ [(d, 0)],
      errors = per_device (hits pat_error) done @ [(d, 0)]\<rparr>"
  using assms by (simp add: init_device_def summary_def update_fresh keys_per_device)

lemma analyze_device_summary:
  assumes "d \<notin> fst ` set done"
  shows "analyze_lines d logs (init_device d (summary done)) = Inr (summary (done @ [(d, logs)]))"
proof -
  note r = init_device_summary [OF assms]
  have "analyze_lines d logs (init_device d (summary done)) = Inr
     \<lparr>kyber_init = AList.update d (False \<or> seen pat_kyber_init logs)
        (kyber_init (init_device d (summary done))),
      key_generation = AList.update d (False \<or> seen pat_key_generation logs)
        (key_generation (init_device d (summary done))),
      key_exchange_attempts = AList.update d (0 + hits pat_key_exchange_start logs)
        (key_exchange_attempts (init_device d (summary done))),
      sessions_established = AList.update d (0 + hits pat_session_established logs)
        (sessions_established (init_device d (summary done))),
      quantum_security_active = AList.update d (False \<or> seen pat_quantum_security logs)
        (quantum_security_active (init_device d (summary done))),
      mesh_packets = AList.update d (0 + hits pat_mesh_packet logs)
        (mesh_packets (init_device d (summary done))),
      errors = AList.update d (0 + hits pat_error logs)
        (errors (init_device d (summary done)))\<rparr>"
    unfolding r using assms
    by (intro analyze_lines_present)
       (simp_all add: map_of_snoc keys_per_device del: map_of_append)
  then show ?thesis
    unfolding r using assms
    by (simp add: update_snoc keys_per_device summary_def per_device_snoc)
qed

lemma analyze_devices_summary:
  "distinct (map fst (done @ rest)) \<Longrightarrow>
   analyze_devices rest (summary done) = Inr (summary (done @ rest))"
proof (induction rest arbitrary: "done")
  case Nil
  then show ?case by simp
next
  case (Cons a rest)
  obtain d logs where a: "a = (d, logs)" by (cases a)
  from Cons.prems have fresh: "d \<notin> fst ` set done" by (auto simp: a)
  from Cons.prems have "distinct (map fst ((done @ [(d, logs)]) @ rest))" by (simp add: a)
  then have "analyze_devices rest (summary (done @ [(d, logs)])) =
    Inr (summary ((done @ [(d, logs)]) @ rest))"
    by (rule Cons.IH)
  then show ?case
    by (simp add: a analyze_device_summary [OF fresh])
qed

lemma analyze_log_output_summary:
  fixes device_logs :: "('t \<times> string) list dict"
  assumes "distinct (map fst device_logs)"
  shows "analyze_log_output device_logs = Inr (summary device_logs)"
proof -
  have "summary ([] :: ('t \<times> string) list dict) = empty_results"
    by (simp add: summary_def per_device_def empty_results_def)
  with analyze_devices_summary [of "[]" device_logs] assms show ?thesis
    by (simp add: analyze_log_output_def)
qed

lemma map_of_per_device:
  "distinct (map fst dl) \<Longrightarrow> (d, logs) \<in> set dl \<Longrightarrow> map_of (per_device g dl) d = Some (g logs)"
  by (induction dl) (auto simp: per_device_def rev_image_eqI)

lemma map_fst_update_present:
  "map_of al k = Some w \<Longrightarrow> map fst (AList.update k v al) = map fst al"
  by (induction al) (auto split: if_splits)

lemma collect_logs_keys:
  "collect_logs items dl = Inr dl' \<Longrightarrow> map fst dl' = map fst dl"
proof (induction items arbitrary: dl)
  case Nil
  then show ?case by simp
next
  case (Cons a items)
  obtain d t l where a: "a = (d, t, l)" by (cases a)
  from Cons.prems obtain logs where
    look: "map_of dl d = Some logs" and
    rest: "collect_logs items (AList.update d (logs @ [(t, l)]) dl) = Inr dl'"
    by (auto simp: a split: option.splits)
  from Cons.IH [OF rest] map_fst_update_present [OF look] show ?case by simp
qed

lemma both_init_false:
  "dl \<noteq> [] \<Longrightarrow> \<not> both_init (success_criteria (summary dl))"
  by (cases dl) (auto simp: success_criteria_def summary_def per_device_def not_seen_kyber)

lemma mesh_never_true: "fst (test_mesh_communication e ports) \<noteq> Inr True"
proof -
  have "\<not> overall_success (success_criteria analysis)"
    if c: "collect_logs items [(''T-Deck-1'', []), (''T-Deck-2'', [])] = Inr dl"
      and a: "analyze_log_output dl = Inr analysis"
    for items :: "(string \<times> 'a \<times> string) list" and dl analysis
  proof -
    from collect_logs_keys [OF c] have keys: "map fst dl = [''T-Deck-1'', ''T-Deck-2'']"
      by simp
    then have "distinct (map fst dl)" and "dl \<noteq> []" by auto
    with a have "analysis = summary dl" by (simp add: analyze_log_output_summary)
    with \<open>dl \<noteq> []\<close> show ?thesis by (simp add: overall_success_def both_init_false)
  qed
  then show ?thesis
    by (auto simp: test_mesh_communication_def Let_def split: sum.splits)
qed

section \<open>The analyzer on lowercased lines\<close>

text \<open>
  Claim C2. Every line is lowercased before it is searched, and the patterns for
  initialization, key generation and the start of a key exchange all require the capital
  letter K. So for every mapping of device logs and every device in it, the analysis
  returns \<open>kyber_init\<close> = \<open>False\<close>, \<open>key_generation\<close> = \<open>False\<close> and
  \<open>key_exchange_attempts\<close> = 0; the criterion \<open>both_init\<close> is false, and
  \<open>test_mesh_communication\<close> never returns \<open>True\<close>, whatever the devices send.
\<close>

theorem analysis_never_detects_kyber:
  assumes "distinct (map fst device_logs)" and "(d, logs) \<in> set device_logs"
  shows "(\<exists>r. analyze_log_output device_logs = Inr r
            \<and> map_of (kyber_init r) d = Some False
            \<and> map_of (key_generation r) d = Some False
            \<and> map_of (key_exchange_attempts r) d = Some 0
            \<and> \<not> both_init (success_criteria r))
         \<and> fst (test_mesh_communication e ports) \<noteq> Inr True"
proof -
  from assms(2) have ne: "device_logs \<noteq> []" by auto
  have "analyze_log_output device_logs = Inr (summary device_logs)"
    using assms(1) by (rule analyze_log_output_summary)
  moreover have "map_of (kyber_init (summary device_logs)) d = Some False"
    "map_of (key_generation (summary device_logs)) d = Some False"
    "map_of (key_exchange_attempts (summary device_logs)) d = Some 0"
    using assms by (simp_all add: summary_def map_of_per_device not_seen_kyber)
  moreover note both_init_false [OF ne] mesh_never_true [of e ports]
  ultimately show ?thesis by simp
qed

theorem analysis_never_detects_kyber_witness:
  "(\<exists>r. analyze_log_output [(''T-Deck-1'', [(0::nat, ''KyberCryptoEngine created'')])] = Inr r
      \<and> map_of (kyber_init r) ''T-Deck-1'' = Some False
      \<and> map_of (key_generation r) ''T-Deck-1'' = Some False
      \<and> map_of (key_exchange_attempts r) ''T-Deck-1'' = Some 0
      \<and> \<not> both_init (success_criteria r))"
proof -
  have d: "distinct (map fst [(''T-Deck-1'', [(0::nat, ''KyberCryptoEngine created'')])])"
    by simp
  have m: "(''T-Deck-1'', [(0::nat, ''KyberCryptoEngine created'')])
      \<in> set [(''T-Deck-1'', [(0::nat, ''KyberCryptoEngine created'')])]"
    by simp
  from analysis_never_detects_kyber [OF d m] show ?thesis by (rule conjunct1)
qed

section \<open>Timestamps\<close>

lemma analyze_lines_timestamps:
  "map snd logs1 = map snd logs2 \<Longrightarrow> analyze_lines d logs1 r = analyze_lines d logs2 r"
proof (induction logs1 arbitrary: logs2 r)
  case Nil
  then show ?case by simp
next
  case (Cons a logs1)
  then obtain b rest where l2: "logs2 = b # rest" by (cases logs2) auto
  obtain t l where a: "a = (t, l)" by (cases a)
  obtain t' l' where b: "b = (t', l')" by (cases b)
  from Cons.prems have l: "l' = l" and m: "map snd logs1 = map snd rest"
    by (auto simp: l2 a b)
  show ?case
  proof (cases "analyze_line d l r")
    case (Inl e)
    then show ?thesis by (simp add: l2 a b l)
  next
    case (Inr r')
    from Cons.IH [OF m, of r'] Inr show ?thesis by (simp add: l2 a b l)
  qed
qed

lemma analyze_devices_timestamps:
  "map (\<lambda>(d, logs). (d, map snd logs)) dl1 = map (\<lambda>(d, logs). (d, map snd logs)) dl2 \<Longrightarrow>
   analyze_devices dl1 r = analyze_devices dl2 r"
proof (induction dl1 arbitrary: dl2 r)
  case Nil
  then show ?case by simp
next
  case (Cons a dl1)
  then obtain b rest where l2: "dl2 = b # rest" by (cases dl2) auto
  obtain d logs where a: "a = (d, logs)" by (cases a)
  obtain d' logs' where b: "b = (d', logs')" by (cases b)
  from Cons.prems have eq: "d' = d" "map snd logs = map snd logs'"
    and rest: "map (\<lambda>(d, logs). (d, map snd logs)) dl1 = map (\<lambda>(d, logs). (d, map snd logs)) rest"
    by (auto simp: l2 a b)
  have same: "analyze_lines d logs (init_device d r) = analyze_lines d logs' (init_device d r)"
    using eq(2) by (rule analyze_lines_timestamps)
  show ?case
  proof (cases "analyze_lines d logs' (init_device d r)")
    case (Inl e)
    with same show ?thesis by (simp add: l2 a b eq(1))
  next
    case (Inr r')
    from Cons.IH [OF rest, of r'] Inr same show ?thesis by (simp add: l2 a b eq(1))
  qed
qed

text \<open>
  Claim C10. The analysis does not read timestamps: two mappings of device logs with the
  same devices and the same line texts in the same order per device, whatever their
  timestamps (even of different types), have the same analysis result.
\<close>

theorem analysis_ignores_timestamps:
  assumes "map (\<lambda>(d, logs). (d, map snd logs)) device_logs1 =
           map (\<lambda>(d, logs). (d, map snd logs)) device_logs2"
  shows "analyze_log_output device_logs1 = analyze_log_output device_logs2"
  unfolding analyze_log_output_def using assms by (rule analyze_devices_timestamps)

theorem analysis_ignores_timestamps_witness:
  "analyze_log_output
     [(''T-Deck-1'', [(1::nat, ''quantum security active''), (2, ''boot error'')]),
      (''T-Deck-2'', [(3, ''mesh message'')])]
   = analyze_log_output
     [(''T-Deck-1'', [(-5::int, ''quantum security active''), (70, ''boot error'')]),
      (''T-Deck-2'', [(0, ''mesh message'')])]"
  by (rule analysis_ignores_timestamps) simp

section \<open>The verdict is the conjunction of four criteria\<close>

text \<open>
  Claim C3. For every analysis result, \<open>overall_success\<close> is true exactly when the four
  criteria hold: initialization detected for every device, key generation detected for
  every device, the key-exchange attempts of all devices summing to more than 0, and
  fewer than 5 errors for every device. It is the conjunction of the four values, so a
  criterion that is false makes it false, whatever the other three are.
\<close>

theorem verdict_iff_four_criteria:
  "(overall_success (success_criteria a) \<longleftrightarrow>
      (\<forall>v \<in> snd ` set (kyber_init a). v) \<and>
      (\<forall>v \<in> snd ` set (key_generation a). v) \<and>
      0 < sum_list (map snd (key_exchange_attempts a)) \<and>
      (\<forall>n \<in> snd ` set (errors a). n < 5))
   \<and> (overall_success c \<longleftrightarrow> both_init c \<and> both_keygen c \<and> key_exchanges c \<and> low_errors c)
   \<and> \<not> overall_success (c\<lparr>both_init := False\<rparr>)
   \<and> \<not> overall_success (c\<lparr>both_keygen := False\<rparr>)
   \<and> \<not> overall_success (c\<lparr>key_exchanges := False\<rparr>)
   \<and> \<not> overall_success (c\<lparr>low_errors := False\<rparr>)"
  by (simp add: overall_success_def success_criteria_def list_all_iff)

theorem verdict_iff_four_criteria_witness:
  "overall_success (success_criteria
     \<lparr>kyber_init = [(''T-Deck-1'', True), (''T-Deck-2'', True)],
      key_generation = [(''T-Deck-1'', True), (''T-Deck-2'', True)],
      key_exchange_attempts = [(''T-Deck-1'', 1), (''T-Deck-2'', 1)],
      sessions_established = [(''T-Deck-1'', 0), (''T-Deck-2'', 0)],
      quantum_security_active = [(''T-Deck-1'', False), (''T-Deck-2'', False)],
      mesh_packets = [(''T-Deck-1'', 0), (''T-Deck-2'', 0)],
      errors = [(''T-Deck-1'', 4), (''T-Deck-2'', 0)]\<rparr>)"
proof -
  let ?a = "\<lparr>kyber_init = [(''T-Deck-1'', True), (''T-Deck-2'', True)],
      key_generation = [(''T-Deck-1'', True), (''T-Deck-2'', True)],
      key_exchange_attempts = [(''T-Deck-1'', 1), (''T-Deck-2'', 1)],
      sessions_established = [(''T-Deck-1'', 0), (''T-Deck-2'', 0)],
      quantum_security_active = [(''T-Deck-1'', False), (''T-Deck-2'', False)],
      mesh_packets = [(''T-Deck-1'', 0), (''T-Deck-2'', 0)],
      errors = [(''T-Deck-1'', 4), (''T-Deck-2'', 0)]\<rparr>"
  have "overall_success (success_criteria ?a) \<longleftrightarrow>
      (\<forall>v \<in> snd ` set (kyber_init ?a). v) \<and>
      (\<forall>v \<in> snd ` set (key_generation ?a). v) \<and>
      0 < sum_list (map snd (key_exchange_attempts ?a)) \<and>
      (\<forall>n \<in> snd ` set (errors ?a). n < 5)"
    by (rule verdict_iff_four_criteria [THEN conjunct1])
  then show ?thesis by simp
qed

section \<open>Every category has every device\<close>

lemma seen_append: "seen p (l1 @ l2) = (seen p l1 \<or> seen p l2)"
  by (simp add: seen_def)

lemma hits_append: "hits p (l1 @ l2) = hits p l1 + hits p l2"
  by (simp add: hits_def)

text \<open>
  Claim C5. For every mapping of device logs (an association list with distinct keys)
  and every device in it, the analysis returns a result in which each of the seven
  categories has an entry for that device: whether a line matched for the boolean
  categories, the number of matching lines for the counting ones. For a device whose
  log is empty these are \<open>False\<close> and 0.
\<close>

theorem every_category_has_every_device:
  assumes "distinct (map fst device_logs)" and "(d, logs) \<in> set device_logs"
  shows "\<exists>r. analyze_log_output device_logs = Inr r
     \<and> map_of (kyber_init r) d = Some (seen pat_kyber_init logs)
     \<and> map_of (key_generation r) d = Some (seen pat_key_generation logs)
     \<and> map_of (key_exchange_attempts r) d = Some (hits pat_key_exchange_start logs)
     \<and> map_of (sessions_established r) d = Some (hits pat_session_established logs)
     \<and> map_of (quantum_security_active r) d = Some (seen pat_quantum_security logs)
     \<and> map_of (mesh_packets r) d = Some (hits pat_mesh_packet logs)
     \<and> map_of (errors r) d = Some (hits pat_error logs)
     \<and> (logs = [] \<longrightarrow>
          map_of (kyber_init r) d = Some False
        \<and> map_of (key_generation r) d = Some False
        \<and> map_of (key_exchange_attempts r) d = Some 0
        \<and> map_of (sessions_established r) d = Some 0
        \<and> map_of (quantum_security_active r) d = Some False
        \<and> map_of (mesh_packets r) d = Some 0
        \<and> map_of (errors r) d = Some 0)"
proof -
  have "analyze_log_output device_logs = Inr (summary device_logs)"
    using assms(1) by (rule analyze_log_output_summary)
  moreover have "map_of (per_device g device_logs) d = Some (g logs)"
    for g :: "('a \<times> string) list \<Rightarrow> bool"
    using assms by (rule map_of_per_device)
  moreover have "map_of (per_device h device_logs) d = Some (h logs)"
    for h :: "('a \<times> string) list \<Rightarrow> int"
    using assms by (rule map_of_per_device)
  ultimately show ?thesis by (simp add: summary_def)
qed

theorem every_category_has_every_device_witness:
  "\<exists>r. analyze_log_output
          [(''T-Deck-1'', [(0::nat, ''quantum security active''), (1, ''boot fail'')]),
           (''T-Deck-2'', [])] = Inr r
     \<and> map_of (kyber_init r) ''T-Deck-2'' = Some False
     \<and> map_of (key_generation r) ''T-Deck-2'' = Some False
     \<and> map_of (key_exchange_attempts r) ''T-Deck-2'' = Some 0
     \<and> map_of (sessions_established r) ''T-Deck-2'' = Some 0
     \<and> map_of (quantum_security_active r) ''T-Deck-2'' = Some False
     \<and> map_of (mesh_packets r) ''T-Deck-2'' = Some 0
     \<and> map_of (errors r) ''T-Deck-2'' = Some 0"
proof -
  let ?dl = "[(''T-Deck-1'', [(0::nat, ''quantum security active''), (1, ''boot fail'')]),
           (''T-Deck-2'', [])]"
  have d: "distinct (map fst ?dl)" by simp
  have m: "(''T-Deck-2'', []) \<in> set ?dl" by simp
  from every_category_has_every_device [OF d m] show ?thesis by auto
qed

section \<open>Boolean categories only go up\<close>

lemma qs_line: "re_search pat_quantum_security (lower ''Quantum Security ACTIVE'')"
  by code_simp

text \<open>
  Claim C6. While the lines of one device are analyzed, a boolean category that is
  \<open>True\<close> for the device stays \<open>True\<close>: from any state that has the device's seven
  entries (as every state after the initialization of the device has), the analysis of
  a prefix of the log and the analysis of the whole log both return, and whichever of
  \<open>kyber_init\<close>, \<open>key_generation\<close>, \<open>quantum_security_active\<close> is \<open>True\<close> after the
  prefix is \<open>True\<close> after the whole log.
\<close>

theorem booleans_monotonic:
  assumes "map_of (kyber_init r) d = Some b1"
    and "map_of (key_generation r) d = Some b2"
    and "map_of (key_exchange_attempts r) d = Some n1"
    and "map_of (sessions_established r) d = Some n2"
    and "map_of (quantum_security_active r) d = Some b3"
    and "map_of (mesh_packets r) d = Some n3"
    and "map_of (errors r) d = Some n4"
  shows "\<exists>r1 r2. analyze_lines d logs1 r = Inr r1
     \<and> analyze_lines d (logs1 @ logs2) r = Inr r2
     \<and> (map_of (kyber_init r1) d = Some True \<longrightarrow> map_of (kyber_init r2) d = Some True)
     \<and> (map_of (key_generation r1) d = Some True \<longrightarrow> map_of (key_generation r2) d = Some True)
     \<and> (map_of (quantum_security_active r1) d = Some True
          \<longrightarrow> map_of (quantum_security_active r2) d = Some True)"
  unfolding analyze_lines_present [OF assms]
  by (simp add: map_of_update_same seen_append)

theorem booleans_monotonic_witness:
  "\<exists>r1 r2.
     analyze_lines ''T-Deck-1'' [(0::nat, ''Quantum Security ACTIVE'')]
       \<lparr>kyber_init = [(''T-Deck-1'', True)], key_generation = [(''T-Deck-1'', True)],
        key_exchange_attempts = [(''T-Deck-1'', 0)], sessions_established = [(''T-Deck-1'', 0)],
        quantum_security_active = [(''T-Deck-1'', False)], mesh_packets = [(''T-Deck-1'', 0)],
        errors = [(''T-Deck-1'', 0)]\<rparr> = Inr r1
   \<and> analyze_lines ''T-Deck-1'' ([(0::nat, ''Quantum Security ACTIVE'')] @ [(1, ''rebooting'')])
       \<lparr>kyber_init = [(''T-Deck-1'', True)], key_generation = [(''T-Deck-1'', True)],
        key_exchange_attempts = [(''T-Deck-1'', 0)], sessions_established = [(''T-Deck-1'', 0)],
        quantum_security_active = [(''T-Deck-1'', False)], mesh_packets = [(''T-Deck-1'', 0)],
        errors = [(''T-Deck-1'', 0)]\<rparr> = Inr r2
   \<and> map_of (kyber_init r1) ''T-Deck-1'' = Some True
   \<and> map_of (key_generation r1) ''T-Deck-1'' = Some True
   \<and> map_of (quantum_security_active r1) ''T-Deck-1'' = Some True
   \<and> map_of (kyber_init r2) ''T-Deck-1'' = Some True
   \<and> map_of (key_generation r2) ''T-Deck-1'' = Some True
   \<and> map_of (quantum_security_active r2) ''T-Deck-1'' = Some True"
proof -
  let ?r = "\<lparr>kyber_init = [(''T-Deck-1'', True)], key_generation = [(''T-Deck-1'', True)],
        key_exchange_attempts = [(''T-Deck-1'', 0)], sessions_established = [(''T-Deck-1'', 0)],
        quantum_security_active = [(''T-Deck-1'', False)], mesh_packets = [(''T-Deck-1'', 0)],
        errors = [(''T-Deck-1'', 0)]\<rparr>"
  let ?l1 = "[(0::nat, ''Quantum Security ACTIVE'')]"
  have first: "analyze_lines ''T-Deck-1'' ?l1 ?r = Inr
     \<lparr>kyber_init = AList.update ''T-Deck-1'' (True \<or> seen pat_kyber_init ?l1) (kyber_init ?r),
      key_generation = AList.update ''T-Deck-1'' (True \<or> seen pat_key_generation ?l1) (key_generation ?r),
      key_exchange_attempts = AList.update ''T-Deck-1'' (0 + hits pat_key_exchange_start ?l1) (key_exchange_attempts ?r),
      sessions_established = AList.update ''T-Deck-1'' (0 + hits pat_session_established ?l1) (sessions_established ?r),
      quantum_security_active = AList.update ''T-Deck-1'' (False \<or> seen pat_quantum_security ?l1) (quantum_security_active ?r),
      mesh_packets = AList.update ''T-Deck-1'' (0 + hits pat_mesh_packet ?l1) (mesh_packets ?r),
      errors = AList.update ''T-Deck-1'' (0 + hits pat_error ?l1) (errors ?r)\<rparr>"
    by (rule analyze_lines_present) simp_all
  have "\<exists>r1 r2. analyze_lines ''T-Deck-1'' ?l1 ?r = Inr r1
     \<and> analyze_lines ''T-Deck-1'' (?l1 @ [(1, ''rebooting'')]) ?r = Inr r2
     \<and> (map_of (kyber_init r1) ''T-Deck-1'' = Some True \<longrightarrow> map_of (kyber_init r2) ''T-Deck-1'' = Some True)
     \<and> (map_of (key_generation r1) ''T-Deck-1'' = Some True \<longrightarrow> map_of (key_generation r2) ''T-Deck-1'' = Some True)
     \<and> (map_of (quantum_security_active r1) ''T-Deck-1'' = Some True
          \<longrightarrow> map_of (quantum_security_active r2) ''T-Deck-1'' = Some True)"
    by (rule booleans_monotonic [where ?b1.0 = True and ?b2.0 = True and ?b3.0 = False
          and ?n1.0 = 0 and ?n2.0 = 0 and ?n3.0 = 0 and ?n4.0 = 0]) simp_all
  then obtain r1 r2 where
    1: "analyze_lines ''T-Deck-1'' ?l1 ?r = Inr r1" and
    2: "analyze_lines ''T-Deck-1'' (?l1 @ [(1, ''rebooting'')]) ?r = Inr r2" and
    m: "map_of (kyber_init r1) ''T-Deck-1'' = Some True \<longrightarrow> map_of (kyber_init r2) ''T-Deck-1'' = Some True"
       "map_of (key_generation r1) ''T-Deck-1'' = Some True \<longrightarrow> map_of (key_generation r2) ''T-Deck-1'' = Some True"
       "map_of (quantum_security_active r1) ''T-Deck-1'' = Some True
          \<longrightarrow> map_of (quantum_security_active r2) ''T-Deck-1'' = Some True"
    by blast
  from 1 first have pre: "map_of (kyber_init r1) ''T-Deck-1'' = Some True"
    "map_of (key_generation r1) ''T-Deck-1'' = Some True"
    "map_of (quantum_security_active r1) ''T-Deck-1'' = Some True"
    by (auto simp: qs_line)
  with m 1 2 show ?thesis by blast
qed

section \<open>The analyzer on lines with capital letters\<close>

lemma scenario_other_patterns:
  "hits pat_session_established [(0::int, ''KyberCryptoEngine created''),
     (1, ''Kyber keypair generated''), (2, ''KYBER_MSG_KEY_EXCHANGE_REQUEST sent'')] = 0"
  "seen pat_quantum_security [(0::int, ''KyberCryptoEngine created''),
     (1, ''Kyber keypair generated''), (2, ''KYBER_MSG_KEY_EXCHANGE_REQUEST sent'')] = False"
  "hits pat_mesh_packet [(0::int, ''KyberCryptoEngine created''),
     (1, ''Kyber keypair generated''), (2, ''KYBER_MSG_KEY_EXCHANGE_REQUEST sent'')] = 0"
  "hits pat_error [(0::int, ''KyberCryptoEngine created''),
     (1, ''Kyber keypair generated''), (2, ''KYBER_MSG_KEY_EXCHANGE_REQUEST sent'')] = 0"
  by code_simp+

text \<open>
  Claim C1. The scenario of two devices that each log \<open>KyberCryptoEngine created\<close>,
  \<open>Kyber keypair generated\<close> and \<open>KYBER_MSG_KEY_EXCHANGE_REQUEST sent\<close> is expected to
  give initialization and key generation detected for both, two key-exchange attempts,
  no error, and an overall verdict of success. The program, which lowercases each line
  and then searches it for patterns spelled with capitals, returns on this input
  \<open>False\<close> for initialization and key generation of both devices and 0 attempts, and
  the verdict is failure.
\<close>

theorem scenario_three_lines_not_detected:
  "analyze_log_output
     [(''T-Deck-1'', [(0::int, ''KyberCryptoEngine created''), (1, ''Kyber keypair generated''),
                      (2, ''KYBER_MSG_KEY_EXCHANGE_REQUEST sent'')]),
      (''T-Deck-2'', [(0, ''KyberCryptoEngine created''), (1, ''Kyber keypair generated''),
                      (2, ''KYBER_MSG_KEY_EXCHANGE_REQUEST sent'')])]
   = Inr \<lparr>kyber_init = [(''T-Deck-1'', False), (''T-Deck-2'', False)],
          key_generation = [(''T-Deck-1'', False), (''T-Deck-2'', False)],
          key_exchange_attempts = [(''T-Deck-1'', 0), (''T-Deck-2'', 0)],
          sessions_established = [(''T-Deck-1'', 0), (''T-Deck-2'', 0)],
          quantum_security_active = [(''T-Deck-1'', False), (''T-Deck-2'', False)],
          mesh_packets = [(''T-Deck-1'', 0), (''T-Deck-2'', 0)],
          errors = [(''T-Deck-1'', 0), (''T-Deck-2'', 0)]\<rparr>
   \<and> \<not> overall_success (success_criteria
         \<lparr>kyber_init = [(''T-Deck-1'', False), (''T-Deck-2'', False)],
          key_generation = [(''T-Deck-1'', False), (''T-Deck-2'', False)],
          key_exchange_attempts = [(''T-Deck-1'', 0), (''T-Deck-2'', 0)],
          sessions_established = [(''T-Deck-1'', 0), (''T-Deck-2'', 0)],
          quantum_security_active = [(''T-Deck-1'', False), (''T-Deck-2'', False)],
          mesh_packets = [(''T-Deck-1'', 0), (''T-Deck-2'', 0)],
          errors = [(''T-Deck-1'', 0), (''T-Deck-2'', 0)]\<rparr>)"
proof
  show "analyze_log_output
     [(''T-Deck-1'', [(0::int, ''KyberCryptoEngine created''), (1, ''Kyber keypair generated''),
                      (2, ''KYBER_MSG_KEY_EXCHANGE_REQUEST sent'')]),
      (''T-Deck-2'', [(0, ''KyberCryptoEngine created''), (1, ''Kyber keypair generated''),
                      (2, ''KYBER_MSG_KEY_EXCHANGE_REQUEST sent'')])]
   = Inr \<lparr>kyber_init = [(''T-Deck-1'', False), (''T-Deck-2'', False)],
          key_generation = [(''T-Deck-1'', False), (''T-Deck-2'', False)],
          key_exchange_attempts = [(''T-Deck-1'', 0), (''T-Deck-2'', 0)],
          sessions_established = [(''T-Deck-1'', 0), (''T-Deck-2'', 0)],
          quantum_security_active = [(''T-Deck-1'', False), (''T-Deck-2'', False)],
          mesh_packets = [(''T-Deck-1'', 0), (''T-Deck-2'', 0)],
          errors = [(''T-Deck-1'', 0), (''T-Deck-2'', 0)]\<rparr>"
    by (subst analyze_log_output_summary)
       (simp_all add: summary_def per_device_def not_seen_kyber scenario_other_patterns
          del: seen_simps hits_simps)
next
  show "\<not> overall_success (success_criteria
         \<lparr>kyber_init = [(''T-Deck-1'', False), (''T-Deck-2'', False)],
          key_generation = [(''T-Deck-1'', False), (''T-Deck-2'', False)],
          key_exchange_attempts = [(''T-Deck-1'', 0), (''T-Deck-2'', 0)],
          sessions_established = [(''T-Deck-1'', 0), (''T-Deck-2'', 0)],
          quantum_security_active = [(''T-Deck-1'', False), (''T-Deck-2'', False)],
          mesh_packets = [(''T-Deck-1'', 0), (''T-Deck-2'', 0)],
          errors = [(''T-Deck-1'', 0), (''T-Deck-2'', 0)]\<rparr>)"
    by (simp add: overall_success_def success_criteria_def)
qed

lemma exchange_error_raw:
  "re_search pat_key_exchange_start ''KYBER_MSG_KEY_EXCHANGE_REQUEST error''"
  "re_search pat_error ''KYBER_MSG_KEY_EXCHANGE_REQUEST error''"
  by code_simp+

lemma exchange_error_other_patterns:
  "hits pat_session_established [(0::int, ''KYBER_MSG_KEY_EXCHANGE_REQUEST error'')] = 0"
  "seen pat_quantum_security [(0::int, ''KYBER_MSG_KEY_EXCHANGE_REQUEST error'')] = False"
  "hits pat_mesh_packet [(0::int, ''KYBER_MSG_KEY_EXCHANGE_REQUEST error'')] = 0"
  "hits pat_error [(0::int, ''KYBER_MSG_KEY_EXCHANGE_REQUEST error'')] = 1"
  by code_simp+

text \<open>
  Claim C7. A line that matches both the key-exchange pattern and the error pattern is
  expected to add one to \<open>key_exchange_attempts\<close> and one to \<open>errors\<close>. The line
  \<open>KYBER_MSG_KEY_EXCHANGE_REQUEST error\<close> matches both patterns as they are written;
  the program, searching the lowercased line, adds one to \<open>errors\<close> and leaves
  \<open>key_exchange_attempts\<close> at 0.
\<close>

theorem exchange_and_error_line:
  "re_search pat_key_exchange_start ''KYBER_MSG_KEY_EXCHANGE_REQUEST error''
   \<and> re_search pat_error ''KYBER_MSG_KEY_EXCHANGE_REQUEST error''
   \<and> analyze_log_output [(''T-Deck-1'', [(0::int, ''KYBER_MSG_KEY_EXCHANGE_REQUEST error'')])]
   = Inr \<lparr>kyber_init = [(''T-Deck-1'', False)],
          key_generation = [(''T-Deck-1'', False)],
          key_exchange_attempts = [(''T-Deck-1'', 0)],
          sessions_established = [(''T-Deck-1'', 0)],
          quantum_security_active = [(''T-Deck-1'', False)],
          mesh_packets = [(''T-Deck-1'', 0)],
          errors = [(''T-Deck-1'', 1)]\<rparr>"
  by (subst analyze_log_output_summary)
     (simp_all add: summary_def per_device_def not_seen_kyber exchange_error_raw
        exchange_error_other_patterns del: seen_simps hits_simps re_search.simps)

section \<open>Discovery\<close>

lemma find_examples:
  "filter is_candidate (comports env_one_port) =
     [\<lparr>device = ''/dev/ttyUSB0'', description = ''CP2102 USB to UART Bridge Controller''\<rparr>]"
  "filter is_candidate (comports env_three_ports) =
     [\<lparr>device = ''/dev/ttyUSB0'', description = ''CP2102 USB to UART Bridge Controller''\<rparr>,
      \<lparr>device = ''/dev/ttyACM0'', description = ''ESP32-S3''\<rparr>,
      \<lparr>device = ''/dev/ttyUSB1'', description = ''FT232R USB UART''\<rparr>]"
  "find_t_deck_devices env_flash_timeout = [''/dev/ttyUSB0'', ''/dev/ttyUSB1'']"
  "find_t_deck_devices env_three_ports = [''/dev/ttyUSB0'', ''/dev/ttyACM0'']"
  by code_simp+

text \<open>
  Claim C9. Discovery returns at most two ports. With two or more candidates (ports
  whose lowercased description contains a keyword) it returns the first two in the
  order of the enumeration. With fewer than two it returns no port, and the run ends
  there: \<open>run_tests\<close> returns \<open>False\<close> with no flashing, no monitoring and no report
  written, and \<open>main\<close> exits with status 1.
\<close>

theorem discovery_takes_first_two:
  "length (find_t_deck_devices e) \<le> 2
   \<and> (2 \<le> length (filter is_candidate (comports e)) \<longrightarrow>
        find_t_deck_devices e = take 2 (map device (filter is_candidate (comports e))))
   \<and> (length (filter is_candidate (comports e)) < 2 \<longrightarrow>
        find_t_deck_devices e = [] \<and> run_tests e = (Inr False, []) \<and> main a e = (1, []))"
  by (simp add: find_t_deck_devices_def run_tests_def run_tests_with_def main_def Let_def)

theorem discovery_takes_first_two_witness:
  "find_t_deck_devices env_three_ports = [''/dev/ttyUSB0'', ''/dev/ttyACM0'']
   \<and> find_t_deck_devices env_one_port = []
   \<and> run_tests env_one_port = (Inr False, [])
   \<and> main \<lparr>verbose = False, skip_flash = False, test_duration = 90\<rparr> env_one_port = (1, [])"
  using discovery_takes_first_two
      [of env_three_ports "\<lparr>verbose = False, skip_flash = False, test_duration = 90\<rparr>"]
    discovery_takes_first_two
      [of env_one_port "\<lparr>verbose = False, skip_flash = False, test_duration = 90\<rparr>"]
  by (simp add: find_examples)

section \<open>A run with two ports\<close>

lemma subprocess_run_zero:
  "subprocess_run command timeout = Completed 0 \<longleftrightarrow>
     (\<exists>seconds. seconds \<le> timeout \<and> command = Exits seconds 0)"
  by (cases command) (auto simp: subprocess_run_def)

lemma flash_firmware_true:
  "fst (flash_firmware e port device_name) = Inr True \<longleftrightarrow>
     subprocess_run (flash_command e port) 300 = Completed 0"
  by (cases "subprocess_run (flash_command e port) 300") (auto simp: flash_firmware_def)

lemma flash_firmware_result:
  "flash_command e port \<noteq> Fails KeyboardInterrupt \<Longrightarrow>
   flash_firmware e port device_name =
     (Inr (subprocess_run (flash_command e port) 300 = Completed 0), [EvFlash port device_name])"
  by (cases "flash_command e port") (auto simp: flash_firmware_def subprocess_run_def)

lemma t_deck_names: "t_deck_name 0 = ''T-Deck-1''" "t_deck_name (Suc 0) = ''T-Deck-2''"
  by code_simp+

lemma enumerate_two: "enumerate_from0 [pa, pb] = [(0, pa), (Suc 0, pb)]"
  by (simp add: enumerate_from0_def upt_rec)

lemma collect_logs_total:
  "\<forall>item \<in> set items. fst item \<in> set (map fst dl) \<Longrightarrow> \<exists>dl'. collect_logs items dl = Inr dl'"
proof (induction items arbitrary: dl)
  case Nil
  then show ?case by simp
next
  case (Cons a items)
  obtain d t l where a: "a = (d, t, l)" by (cases a)
  from Cons.prems have "d \<in> fst ` set dl" by (simp add: a)
  then obtain logs where look: "map_of dl d = Some logs"
    by (metis domD dom_map_of_conv_image_fst)
  have "map fst (AList.update d (logs @ [(t, l)]) dl) = map fst dl"
    using look by (rule map_fst_update_present)
  with Cons.prems have "\<forall>item \<in> set items. fst item \<in> set (map fst (AList.update d (logs @ [(t, l)]) dl))"
    by simp
  from Cons.IH [OF this] look show ?case by (simp add: a)
qed

lemma test_mesh_communication_result:
  assumes "collected e = Inr items"
    and "\<forall>item \<in> set items. fst item \<in> {''T-Deck-1'', ''T-Deck-2''}"
  shows "test_mesh_communication e [pa, pb] =
     (Inr False, [EvMonitor pa ''T-Deck-1'' 90, EvMonitor pb ''T-Deck-2'' 90])"
proof -
  from assms(2) have "\<forall>item \<in> set items.
      fst item \<in> set (map fst [(''T-Deck-1'', [] :: ('a \<times> string) list), (''T-Deck-2'', [])])"
    by simp
  from collect_logs_total [OF this] obtain dl where
    dl: "collect_logs items [(''T-Deck-1'', []), (''T-Deck-2'', [])] = Inr dl" ..
  from collect_logs_keys [OF dl] have "map fst dl = [''T-Deck-1'', ''T-Deck-2'']" by simp
  then have "distinct (map fst dl)" and ne: "dl \<noteq> []" by auto
  then have an: "analyze_log_output dl = Inr (summary dl)"
    by (simp add: analyze_log_output_summary)
  from ne have "\<not> overall_success (success_criteria (summary dl))"
    by (simp add: overall_success_def both_init_false)
  with assms(1) dl an show ?thesis
    by (simp add: test_mesh_communication_def enumerate_two t_deck_names)
qed

lemma run_tests_with_two_ports:
  assumes "find_t_deck_devices e = [pa, pb]"
    and "flash_command e pa \<noteq> Fails KeyboardInterrupt"
    and "flash_command e pb \<noteq> Fails KeyboardInterrupt"
    and "mesh_stage [pa, pb] = (Inr mesh_result, ev)"
    and "write_report e = None"
  shows "run_tests_with mesh_stage e =
     (Inr (subprocess_run (flash_command e pa) 300 = Completed 0
           \<and> subprocess_run (flash_command e pb) 300 = Completed 0 \<and> mesh_result),
      [EvFlash pa ''T-Deck-1'']
      @ (if subprocess_run (flash_command e pa) 300 = Completed 0 then [EvSleep 10] else [])
      @ [EvFlash pb ''T-Deck-2'']
      @ (if subprocess_run (flash_command e pb) 300 = Completed 0 then [EvSleep 10] else [])
      @ ev
      @ [EvWriteReport [(''T-Deck-1'', subprocess_run (flash_command e pa) 300 = Completed 0),
                        (''T-Deck-2'', subprocess_run (flash_command e pb) 300 = Completed 0)]
           mesh_result])"
proof -
  have fl: "flash_loop e [(0, pa), (Suc 0, pb)] [] =
     (Inr [(''T-Deck-1'', subprocess_run (flash_command e pa) 300 = Completed 0),
           (''T-Deck-2'', subprocess_run (flash_command e pb) 300 = Completed 0)],
      [EvFlash pa ''T-Deck-1'']
      @ (if subprocess_run (flash_command e pa) 300 = Completed 0 then [EvSleep 10] else [])
      @ [EvFlash pb ''T-Deck-2'']
      @ (if subprocess_run (flash_command e pb) 300 = Completed 0 then [EvSleep 10] else []))"
    by (simp add: Let_def t_deck_names flash_firmware_result [OF assms(2)]
          flash_firmware_result [OF assms(3)])
  show ?thesis
    by (simp add: run_tests_with_def assms(1) assms(4) assms(5) enumerate_two fl run_result_def
          del: flash_loop.simps)
qed

lemma run_tests_two_ports:
  assumes "find_t_deck_devices e = [pa, pb]"
    and "flash_command e pa \<noteq> Fails KeyboardInterrupt"
    and "flash_command e pb \<noteq> Fails KeyboardInterrupt"
    and "collected e = Inr items"
    and "\<forall>item \<in> set items. fst item \<in> {''T-Deck-1'', ''T-Deck-2''}"
    and "write_report e = None"
  shows "run_tests e =
     (Inr False,
      [EvFlash pa ''T-Deck-1'']
      @ (if subprocess_run (flash_command e pa) 300 = Completed 0 then [EvSleep 10] else [])
      @ [EvFlash pb ''T-Deck-2'']
      @ (if subprocess_run (flash_command e pb) 300 = Completed 0 then [EvSleep 10] else [])
      @ [EvMonitor pa ''T-Deck-1'' 90, EvMonitor pb ''T-Deck-2'' 90,
         EvWriteReport [(''T-Deck-1'', subprocess_run (flash_command e pa) 300 = Completed 0),
                        (''T-Deck-2'', subprocess_run (flash_command e pb) 300 = Completed 0)]
           False])"
proof -
  note mesh = test_mesh_communication_result [OF assms(4,5), of pa pb]
  show ?thesis
    unfolding run_tests_def
    by (subst run_tests_with_two_ports
          [where mesh_stage = "test_mesh_communication e" and mesh_result = False
             and ev = "[EvMonitor pa ''T-Deck-1'' 90, EvMonitor pb ''T-Deck-2'' 90]",
           OF assms(1,2,3) mesh assms(6)]) simp
qed

lemma monitors_started:
  "snd (test_mesh_communication e [pa, pb]) =
     [EvMonitor pa ''T-Deck-1'' 90, EvMonitor pb ''T-Deck-2'' 90]"
  by (simp add: test_mesh_communication_def enumerate_two t_deck_names)

text \<open>
  Claim C8. \<open>flash_firmware\<close> returns \<open>True\<close> exactly when the flashing command exits
  with return code 0 within the timeout of 300 seconds; a command that hangs or exits
  later, another return code, or any other exception gives \<open>False\<close>, not an exception.
  In a run with two ports where nobody interrupts the flashing, however the two flashes
  end, both ports are flashed, the monitoring stage is run, the report is written, and
  the run returns the conjunction of the two values \<open>flash_firmware\<close> returned and the
  verdict the monitoring stage returned, whatever that verdict is: with a flash
  result \<open>False\<close> the run returns \<open>False\<close> even for a verdict \<open>True\<close>. The monitoring
  stage of the program is \<open>test_mesh_communication\<close>, which starts a monitor of 90
  seconds for each of the two ports.
\<close>

theorem flash_failure_is_recorded:
  assumes "find_t_deck_devices e = [pa, pb]"
    and "flash_command e pa \<noteq> Fails KeyboardInterrupt"
    and "flash_command e pb \<noteq> Fails KeyboardInterrupt"
    and "mesh_stage [pa, pb] = (Inr mesh_result, ev)"
    and "write_report e = None"
  shows
    "(fst (flash_firmware e port device_name) = Inr True
        \<longleftrightarrow> (\<exists>seconds. seconds \<le> 300 \<and> flash_command e port = Exits seconds 0))
     \<and> (flash_command e port = Hangs
          \<or> (\<exists>seconds returncode. flash_command e port = Exits seconds returncode
                \<and> (300 < seconds \<or> returncode \<noteq> 0))
          \<or> (\<exists>x. x \<noteq> KeyboardInterrupt \<and> flash_command e port = Fails x)
        \<longrightarrow> fst (flash_firmware e port device_name) = Inr False)
     \<and> run_tests_with mesh_stage e =
          (Inr (fst (flash_firmware e pa ''T-Deck-1'') = Inr True
                \<and> fst (flash_firmware e pb ''T-Deck-2'') = Inr True
                \<and> mesh_result),
           [EvFlash pa ''T-Deck-1'']
           @ (if fst (flash_firmware e pa ''T-Deck-1'') = Inr True then [EvSleep 10] else [])
           @ [EvFlash pb ''T-Deck-2'']
           @ (if fst (flash_firmware e pb ''T-Deck-2'') = Inr True then [EvSleep 10] else [])
           @ ev
           @ [EvWriteReport [(''T-Deck-1'', fst (flash_firmware e pa ''T-Deck-1'') = Inr True),
                             (''T-Deck-2'', fst (flash_firmware e pb ''T-Deck-2'') = Inr True)]
                mesh_result])
     \<and> (fst (flash_firmware e pa ''T-Deck-1'') = Inr False
          \<or> fst (flash_firmware e pb ''T-Deck-2'') = Inr False
        \<longrightarrow> fst (run_tests_with mesh_stage e) = Inr False)
     \<and> run_tests e = run_tests_with (test_mesh_communication e) e
     \<and> snd (test_mesh_communication e [pa, pb]) =
          [EvMonitor pa ''T-Deck-1'' 90, EvMonitor pb ''T-Deck-2'' 90]"
proof (intro conjI)
  show "fst (flash_firmware e port device_name) = Inr True
        \<longleftrightarrow> (\<exists>seconds. seconds \<le> 300 \<and> flash_command e port = Exits seconds 0)"
    by (simp only: flash_firmware_true subprocess_run_zero)
  show "flash_command e port = Hangs
          \<or> (\<exists>seconds returncode. flash_command e port = Exits seconds returncode
                \<and> (300 < seconds \<or> returncode \<noteq> 0))
          \<or> (\<exists>x. x \<noteq> KeyboardInterrupt \<and> flash_command e port = Fails x)
        \<longrightarrow> fst (flash_firmware e port device_name) = Inr False"
    by (cases "flash_command e port") (auto simp: flash_firmware_def subprocess_run_def)
  show run: "run_tests_with mesh_stage e =
          (Inr (fst (flash_firmware e pa ''T-Deck-1'') = Inr True
                \<and> fst (flash_firmware e pb ''T-Deck-2'') = Inr True
                \<and> mesh_result),
           [EvFlash pa ''T-Deck-1'']
           @ (if fst (flash_firmware e pa ''T-Deck-1'') = Inr True then [EvSleep 10] else [])
           @ [EvFlash pb ''T-Deck-2'']
           @ (if fst (flash_firmware e pb ''T-Deck-2'') = Inr True then [EvSleep 10] else [])
           @ ev
           @ [EvWriteReport [(''T-Deck-1'', fst (flash_firmware e pa ''T-Deck-1'') = Inr True),
                             (''T-Deck-2'', fst (flash_firmware e pb ''T-Deck-2'') = Inr True)]
                mesh_result])"
    unfolding flash_firmware_true
    by (rule run_tests_with_two_ports
          [where mesh_stage = mesh_stage and mesh_result = mesh_result and ev = ev, OF assms])
  show "fst (flash_firmware e pa ''T-Deck-1'') = Inr False
          \<or> fst (flash_firmware e pb ''T-Deck-2'') = Inr False
        \<longrightarrow> fst (run_tests_with mesh_stage e) = Inr False"
    unfolding run by auto
  show "run_tests e = run_tests_with (test_mesh_communication e) e"
    by (rule run_tests_def)
  show "snd (test_mesh_communication e [pa, pb]) =
          [EvMonitor pa ''T-Deck-1'' 90, EvMonitor pb ''T-Deck-2'' 90]"
    by (rule monitors_started)
qed

text \<open>
  The witness: the flashing command for the first port would return 0 after 400
  seconds, so it is stopped at 300 and its flash is recorded as failed; the second
  port is flashed all the same; a monitoring stage that returns \<open>True\<close> is still
  run, and the run returns \<open>False\<close>. Where both flashes succeed, the same stage gives
  a run that returns \<open>True\<close>.
\<close>

theorem flash_failure_is_recorded_witness:
  "fst (flash_firmware env_flash_timeout ''/dev/ttyUSB0'' ''T-Deck-1'') = Inr False
   \<and> run_tests_with
       (\<lambda>ports. (Inr True, [EvMonitor ''/dev/ttyUSB0'' ''T-Deck-1'' 90,
                            EvMonitor ''/dev/ttyUSB1'' ''T-Deck-2'' 90]))
       env_flash_timeout =
       (Inr False,
        [EvFlash ''/dev/ttyUSB0'' ''T-Deck-1'',
         EvFlash ''/dev/ttyUSB1'' ''T-Deck-2'', EvSleep 10,
         EvMonitor ''/dev/ttyUSB0'' ''T-Deck-1'' 90, EvMonitor ''/dev/ttyUSB1'' ''T-Deck-2'' 90,
         EvWriteReport [(''T-Deck-1'', False), (''T-Deck-2'', True)] True])
   \<and> run_tests_with
       (\<lambda>ports. (Inr True, [EvMonitor ''/dev/ttyUSB0'' ''T-Deck-1'' 90,
                            EvMonitor ''/dev/ttyACM0'' ''T-Deck-2'' 90]))
       env_three_ports =
       (Inr True,
        [EvFlash ''/dev/ttyUSB0'' ''T-Deck-1'', EvSleep 10,
         EvFlash ''/dev/ttyACM0'' ''T-Deck-2'', EvSleep 10,
         EvMonitor ''/dev/ttyUSB0'' ''T-Deck-1'' 90, EvMonitor ''/dev/ttyACM0'' ''T-Deck-2'' 90,
         EvWriteReport [(''T-Deck-1'', True), (''T-Deck-2'', True)] True])"
proof -
  let ?mesh1 = "\<lambda>ports :: string list.
      (Inr True :: exn + bool, [EvMonitor ''/dev/ttyUSB0'' ''T-Deck-1'' 90,
                               EvMonitor ''/dev/ttyUSB1'' ''T-Deck-2'' 90])"
  let ?mesh2 = "\<lambda>ports :: string list.
      (Inr True :: exn + bool, [EvMonitor ''/dev/ttyUSB0'' ''T-Deck-1'' 90,
                               EvMonitor ''/dev/ttyACM0'' ''T-Deck-2'' 90])"
  have h1: "find_t_deck_devices env_flash_timeout = [''/dev/ttyUSB0'', ''/dev/ttyUSB1'']"
    "flash_command env_flash_timeout ''/dev/ttyUSB0'' \<noteq> Fails KeyboardInterrupt"
    "flash_command env_flash_timeout ''/dev/ttyUSB1'' \<noteq> Fails KeyboardInterrupt"
    "?mesh1 [''/dev/ttyUSB0'', ''/dev/ttyUSB1''] =
       (Inr True, [EvMonitor ''/dev/ttyUSB0'' ''T-Deck-1'' 90,
                   EvMonitor ''/dev/ttyUSB1'' ''T-Deck-2'' 90])"
    "write_report env_flash_timeout = None"
    by (simp_all add: find_examples) (simp_all add: env_flash_timeout_def)
  have h2: "find_t_deck_devices env_three_ports = [''/dev/ttyUSB0'', ''/dev/ttyACM0'']"
    "flash_command env_three_ports ''/dev/ttyUSB0'' \<noteq> Fails KeyboardInterrupt"
    "flash_command env_three_ports ''/dev/ttyACM0'' \<noteq> Fails KeyboardInterrupt"
    "?mesh2 [''/dev/ttyUSB0'', ''/dev/ttyACM0''] =
       (Inr True, [EvMonitor ''/dev/ttyUSB0'' ''T-Deck-1'' 90,
                   EvMonitor ''/dev/ttyACM0'' ''T-Deck-2'' 90])"
    "write_report env_three_ports = None"
    by (simp_all add: find_examples) (simp_all add: env_three_ports_def)
  have f1: "fst (flash_firmware env_flash_timeout ''/dev/ttyUSB0'' ''T-Deck-1'') = Inr False"
    "fst (flash_firmware env_flash_timeout ''/dev/ttyUSB1'' ''T-Deck-2'') = Inr True"
    by (simp_all add: flash_firmware_def subprocess_run_def env_flash_timeout_def)
  have f2: "fst (flash_firmware env_three_ports ''/dev/ttyUSB0'' ''T-Deck-1'') = Inr True"
    "fst (flash_firmware env_three_ports ''/dev/ttyACM0'' ''T-Deck-2'') = Inr True"
    by (simp_all add: flash_firmware_def subprocess_run_def env_three_ports_def)
  note t1 = flash_failure_is_recorded
    [where mesh_stage = ?mesh1 and mesh_result = True
       and ev = "[EvMonitor ''/dev/ttyUSB0'' ''T-Deck-1'' 90,
                  EvMonitor ''/dev/ttyUSB1'' ''T-Deck-2'' 90]"
       and port = "''/dev/ttyUSB0''" and device_name = "''T-Deck-1''", OF h1]
  note t2 = flash_failure_is_recorded
    [where mesh_stage = ?mesh2 and mesh_result = True
       and ev = "[EvMonitor ''/dev/ttyUSB0'' ''T-Deck-1'' 90,
                  EvMonitor ''/dev/ttyACM0'' ''T-Deck-2'' 90]"
       and port = "''/dev/ttyUSB0''" and device_name = "''T-Deck-1''", OF h2]
  from t1 have "run_tests_with ?mesh1 env_flash_timeout =
       (Inr False,
        [EvFlash ''/dev/ttyUSB0'' ''T-Deck-1'',
         EvFlash ''/dev/ttyUSB1'' ''T-Deck-2'', EvSleep 10,
         EvMonitor ''/dev/ttyUSB0'' ''T-Deck-1'' 90, EvMonitor ''/dev/ttyUSB1'' ''T-Deck-2'' 90,
         EvWriteReport [(''T-Deck-1'', False), (''T-Deck-2'', True)] True])"
    by (simp add: f1)
  moreover from t2 have "run_tests_with ?mesh2 env_three_ports =
       (Inr True,
        [EvFlash ''/dev/ttyUSB0'' ''T-Deck-1'', EvSleep 10,
         EvFlash ''/dev/ttyACM0'' ''T-Deck-2'', EvSleep 10,
         EvMonitor ''/dev/ttyUSB0'' ''T-Deck-1'' 90, EvMonitor ''/dev/ttyACM0'' ''T-Deck-2'' 90,
         EvWriteReport [(''T-Deck-1'', True), (''T-Deck-2'', True)] True])"
    by (simp add: f2)
  ultimately show ?thesis using f1(1) by simp
qed

section \<open>The command line\<close>

lemma main_ignores_options: "main a e = main a' e"
  by (simp add: main_def)

lemma main_exit_status:
  "fst (main a e) = (if fst (run_tests e) = Inr True then 0 else 1)"
  by (auto simp: main_def split: prod.splits sum.splits exn.splits)

text \<open>
  Claim C4. \<open>--skip-flash\<close> is expected to bypass flashing and \<open>--test-duration N\<close> to
  make monitoring last \<open>N\<close>. The program parses both options and reads neither: called
  with \<open>--skip-flash --test-duration 30\<close> where two ports are found, it flashes both
  ports and monitors each for 90 seconds, as it does without the options. (The exit
  status is as the claim says: 0 when \<open>run_tests\<close> returns \<open>True\<close>, 1 otherwise.)
\<close>

theorem options_skip_flash_and_duration_unused:
  "main \<lparr>verbose = False, skip_flash = True, test_duration = 30\<rparr> env_three_ports =
     (1, [EvFlash ''/dev/ttyUSB0'' ''T-Deck-1'', EvSleep 10,
          EvFlash ''/dev/ttyACM0'' ''T-Deck-2'', EvSleep 10,
          EvMonitor ''/dev/ttyUSB0'' ''T-Deck-1'' 90, EvMonitor ''/dev/ttyACM0'' ''T-Deck-2'' 90,
          EvWriteReport [(''T-Deck-1'', True), (''T-Deck-2'', True)] False])"
proof -
  have h: "find_t_deck_devices env_three_ports = [''/dev/ttyUSB0'', ''/dev/ttyACM0'']"
    "flash_command env_three_ports ''/dev/ttyUSB0'' \<noteq> Fails KeyboardInterrupt"
    "flash_command env_three_ports ''/dev/ttyACM0'' \<noteq> Fails KeyboardInterrupt"
    "collected env_three_ports = Inr [(''T-Deck-1'', 0, ''KyberCryptoEngine created''),
                       (''T-Deck-2'', 1, ''KyberCryptoEngine created'')]"
    "\<forall>item \<in> set [(''T-Deck-1'', 0::int, ''KyberCryptoEngine created''),
                       (''T-Deck-2'', 1, ''KyberCryptoEngine created'')].
       fst item \<in> {''T-Deck-1'', ''T-Deck-2''}"
    "write_report env_three_ports = None"
    by (simp_all add: find_examples) (simp_all add: env_three_ports_def)
  have s: "subprocess_run (flash_command env_three_ports ''/dev/ttyUSB0'') 300 = Completed 0"
    "subprocess_run (flash_command env_three_ports ''/dev/ttyACM0'') 300 = Completed 0"
    by (simp_all add: env_three_ports_def subprocess_run_def)
  from run_tests_two_ports [OF h] show ?thesis
    by (simp add: main_def s)
qed

end
